theory Spec2Isabelle
  imports Main
begin

section \<open>JavaScript values and the object store\<close>

text \<open>
  The module \<^verbatim>\<open>src/rich_text_editor/index.js\<close> keeps a list of action objects and a
  toolbar element. Action objects are mutated in place and shared with the caller, so
  objects live in an explicit store and values refer to them by address.

  The values covered are \<^verbatim>\<open>undefined\<close>, \<^verbatim>\<open>null\<close>, strings and references to
  objects. Numbers and booleans are left out: their loose equality with strings
  goes through floating point.

  A reference is of one of two kinds, and the kind of an object never changes, since
  the module neither freezes an object nor redefines a property:
  \<^item> \<open>Ref a\<close> refers to an ordinary object: own data properties that can be assigned
    and added.
  \<^item> \<open>Fixed a\<close> refers to an object on which the assignments the module makes throw
    in strict code: a frozen object, or one whose property in question is
    read-only, such as a function with its \<^verbatim>\<open>name\<close>. Its properties can be read, its
    methods called, and, if it is an array, its elements visited, but not pushed.

  Conversion of an object to a string is the one of \<^verbatim>\<open>Object.prototype\<close>, which gives
  \<^verbatim>\<open>[object Object]\<close>. Objects that convert otherwise (arrays, functions, DOM
  elements, objects with their own \<^verbatim>\<open>toString\<close> or \<^verbatim>\<open>valueOf\<close>) or whose conversion
  throws (objects without a prototype) are faithfully modelled only where nothing
  converts them: where they are not compared by \<^verbatim>\<open>==\<close> with a string and not used as
  a prefix.
\<close>

type_synonym addr = nat

datatype val = Undefined | Null | Str string | Ref addr | Fixed addr

text \<open>
  A stored object has named properties; an array has, besides, its elements in order
  (\<open>items = None\<close> for an object that is not an array).
\<close>

record cell =
  props :: "string \<rightharpoonup> val"
  items :: "val list option"

definition empty_object :: cell where
  "empty_object = \<lparr>props = Map.empty, items = None\<rparr>"

definition empty_array :: cell where
  "empty_array = \<lparr>props = Map.empty, items = Some []\<rparr>"

datatype error = TypeError

text \<open>
  A call either returns a value or throws. In both cases the mutations made so far
  stay, so every operation yields its outcome together with the state it leaves.
\<close>

datatype 'a outcome = Returns 'a | Throws error

text \<open>\<^verbatim>\<open>if (v)\<close>, \<^verbatim>\<open>v || w\<close>, \<^verbatim>\<open>v && w\<close>: the falsy values are undefined, null and ''.\<close>

fun truthy :: "val \<Rightarrow> bool" where
  "truthy Undefined = False"
| "truthy Null = False"
| "truthy (Str s) = (s \<noteq> [])"
| "truthy (Ref a) = True"
| "truthy (Fixed a) = True"

text \<open>String conversion, as in a template literal or in \<^verbatim>\<open>+\<close> with a string.\<close>

fun to_string :: "val \<Rightarrow> string" where
  "to_string Undefined = ''undefined''"
| "to_string Null = ''null''"
| "to_string (Str s) = s"
| "to_string (Ref a) = ''[object Object]''"
| "to_string (Fixed a) = ''[object Object]''"

text \<open>
  The loose equality \<^verbatim>\<open>==\<close>: undefined and null equal each other and nothing else,
  strings compare by content, objects by identity, and an object against a string is
  converted to a string first. No object is converted when both sides are among
  undefined, null and the strings, or when one side is undefined or null.
\<close>

fun loose_eq :: "val \<Rightarrow> val \<Rightarrow> bool" where
  "loose_eq Undefined y = (y = Undefined \<or> y = Null)"
| "loose_eq Null y = (y = Undefined \<or> y = Null)"
| "loose_eq (Str s) (Str t) = (s = t)"
| "loose_eq (Str s) (Ref b) = (s = to_string (Ref b))"
| "loose_eq (Str s) (Fixed b) = (s = to_string (Fixed b))"
| "loose_eq (Str s) y = False"
| "loose_eq (Ref a) (Ref b) = (a = b)"
| "loose_eq (Ref a) (Fixed b) = (a = b)"
| "loose_eq (Ref a) (Str t) = (to_string (Ref a) = t)"
| "loose_eq (Ref a) y = False"
| "loose_eq (Fixed a) (Ref b) = (a = b)"
| "loose_eq (Fixed a) (Fixed b) = (a = b)"
| "loose_eq (Fixed a) (Str t) = (to_string (Fixed a) = t)"
| "loose_eq (Fixed a) y = False"

section \<open>The built-in editor the module delegates to\<close>

text \<open>
  Modelled from the spec: the class \<^verbatim>\<open>RichTextEditor\<close> of
  \<^verbatim>\<open>./model/RichTextEditor\<close> is not among the sources. The spec describes the
  module as DOM element creation, event wiring and a flat, ordered list of action
  records held in a sequence. Accordingly an instance keeps the settings it was
  constructed with, among them the array of actions; \<^verbatim>\<open>getActions\<close> answers that
  array; \<^verbatim>\<open>addAction\<close>, \<^verbatim>\<open>enable\<close> and \<^verbatim>\<open>disable\<close> act on the DOM only and are
  recorded as effects. The fields \<^verbatim>\<open>actions\<close> and \<^verbatim>\<open>actionbar\<close> that \<^verbatim>\<open>initRte\<close>
  reads from an instance are the ones of its settings.
\<close>

record rte =
  rte_el :: val
  rte_classes :: "string \<times> string \<times> string"
  rte_actions :: val
  rte_actionbar :: val
  rte_actionbarContainer :: val

text \<open>
  Modelled from the spec: \<^verbatim>\<open>getActions()\<close> of the absent class answers the ordered
  sequence of actions the instance holds, the array itself.
\<close>

definition getActions :: "rte \<Rightarrow> val" where
  "getActions r = rte_actions r"

text \<open>
  Modelled from the spec: the DOM, the event helpers of \<^verbatim>\<open>utils/mixins\<close>, the
  built-in editor, a custom editor supplied by the host, the editor model \<^verbatim>\<open>em\<close>
  and the timer are not among the sources. The spec calls what they do DOM side
  effects and event wiring: each call that leaves the module is recorded with its
  arguments, in order, and changes nothing of the module's own state or of the
  stored objects.
\<close>

datatype effect =
    CreateElement addr string
  | SetClassName addr string
  | SetStyle addr string string
  | Listen addr string
  | AppendChild val addr
  | Construct rte
  | AddAction val
  | RteEnable val
  | RteDisable val
  | CustomEnable val val val
  | CustomDisable val val val
  | SetTimeout
  | EmOff val string
  | EmOn val string
  | EmTrigger val string

section \<open>The state of one module instance\<close>

text \<open>
  \<^verbatim>\<open>module.exports = () => { let config = {}; let toolbar, actions, lastEl, globalRte;
  return { customRte: null, ... } }\<close>: the closure variables, the fields of the
  returned object that the methods read and write through \<^verbatim>\<open>this\<close>, the object
  store and the recorded effects. A closure variable that is still undefined and can
  only ever hold one kind of thing is an option.
\<close>

record state =
  heap :: "addr \<Rightarrow> cell"
  next_addr :: addr
  config :: val
  toolbar :: "addr option"
  actions :: val
  lastEl :: val
  globalRte :: "rte option"
  this_customRte :: val
  this_pfx :: val
  this_actionbar :: val
  this_actions :: val
  effects :: "effect list"

type_synonym 'a prog = "state \<Rightarrow> 'a outcome \<times> state"

definition ret :: "'a \<Rightarrow> 'a prog" where
  "ret x s = (Returns x, s)"

definition throw :: "error \<Rightarrow> 'a prog" where
  "throw e s = (Throws e, s)"

text \<open>Sequencing: a throw skips the rest and keeps the state reached.\<close>

definition thn :: "'a prog \<Rightarrow> ('a \<Rightarrow> 'b prog) \<Rightarrow> 'b prog" where
  "thn m f s = (case m s of (Returns x, s') \<Rightarrow> f x s' | (Throws e, s') \<Rightarrow> (Throws e, s'))"

definition emit :: "effect \<Rightarrow> unit prog" where
  "emit e s = (Returns (), s\<lparr>effects := effects s @ [e]\<rparr>)"

subsection \<open>Objects and arrays\<close>

text \<open>\<^verbatim>\<open>{}\<close> and \<^verbatim>\<open>[]\<close>: a fresh object at the next free address.\<close>

definition new_object :: "val prog" where
  "new_object s =
     (Returns (Ref (next_addr s)),
      s\<lparr>heap := (heap s)(next_addr s := empty_object), next_addr := Suc (next_addr s)\<rparr>)"

definition new_array :: "val prog" where
  "new_array s =
     (Returns (Ref (next_addr s)),
      s\<lparr>heap := (heap s)(next_addr s := empty_array), next_addr := Suc (next_addr s)\<rparr>)"

text \<open>
  \<^verbatim>\<open>v.k\<close>: a TypeError on undefined and null; a string has none of the properties the
  module asks for (\<^verbatim>\<open>name\<close>, \<^verbatim>\<open>em\<close>, \<^verbatim>\<open>actions\<close>, \<^verbatim>\<open>stylePrefix\<close>, \<^verbatim>\<open>pStylePrefix\<close>);
  a missing property of an object reads as undefined.
\<close>

fun read_prop :: "(addr \<Rightarrow> cell) \<Rightarrow> val \<Rightarrow> string \<Rightarrow> val outcome" where
  "read_prop h Undefined k = Throws TypeError"
| "read_prop h Null k = Throws TypeError"
| "read_prop h (Str s) k = Returns Undefined"
| "read_prop h (Ref a) k = Returns (case props (h a) k of None \<Rightarrow> Undefined | Some x \<Rightarrow> x)"
| "read_prop h (Fixed a) k = Returns (case props (h a) k of None \<Rightarrow> Undefined | Some x \<Rightarrow> x)"

definition get_prop :: "val \<Rightarrow> string \<Rightarrow> val prog" where
  "get_prop v k s = (read_prop (heap s) v k, s)"

text \<open>
  \<^verbatim>\<open>v.k = x\<close>. The file is an ES module, hence strict code: assigning a property of a
  primitive string throws, as it does for undefined and null, and as it does on a
  frozen object and for a read-only property (\<open>Fixed\<close>). Only on an ordinary object
  does the assignment go through.
\<close>

fun set_prop :: "val \<Rightarrow> string \<Rightarrow> val \<Rightarrow> unit prog" where
  "set_prop (Ref a) k x s =
     (Returns (), s\<lparr>heap := (heap s)(a := (heap s a)\<lparr>props := (props (heap s a))(k \<mapsto> x)\<rparr>)\<rparr>)"
| "set_prop v k x s = (Throws TypeError, s)"

text \<open>
  \<^verbatim>\<open>k in v\<close> throws unless \<open>v\<close> is an object. Only own properties count: the keys
  asked for are those of the defaults table, none of them a property of
  \<^verbatim>\<open>Object.prototype\<close>.
\<close>

fun has_prop :: "string \<Rightarrow> val \<Rightarrow> bool prog" where
  "has_prop k (Ref a) s = (Returns (k \<in> dom (props (heap s a))), s)"
| "has_prop k (Fixed a) s = (Returns (k \<in> dom (props (heap s a))), s)"
| "has_prop k v s = (Throws TypeError, s)"

text \<open>
  \<^verbatim>\<open>v.push(x)\<close>: only an array has \<^verbatim>\<open>push\<close>; on anything else the call throws
  (undefined and null have no properties, on other values \<^verbatim>\<open>push\<close> is not a function),
  and so it does on a frozen array, which takes no element.
\<close>

fun push :: "val \<Rightarrow> val \<Rightarrow> unit prog" where
  "push (Ref a) x s =
     (case items (heap s a) of
        Some xs \<Rightarrow> (Returns (), s\<lparr>heap := (heap s)(a := (heap s a)\<lparr>items := Some (xs @ [x])\<rparr>)\<rparr>)
      | None \<Rightarrow> (Throws TypeError, s))"
| "push v x s = (Throws TypeError, s)"

text \<open>The elements of an array value, for \<^verbatim>\<open>forEach\<close>; \<open>None\<close> when it is no array.\<close>

fun elements :: "(addr \<Rightarrow> cell) \<Rightarrow> val \<Rightarrow> val list option" where
  "elements h (Ref a) = items (h a)"
| "elements h (Fixed a) = items (h a)"
| "elements h v = None"

section \<open>The public accessors\<close>

text \<open>\<^verbatim>\<open>globalRte.m(...)\<close>: a TypeError while \<^verbatim>\<open>globalRte\<close> is undefined, before \<^verbatim>\<open>init\<close>.\<close>

definition the_globalRte :: "rte prog" where
  "the_globalRte s = (case globalRte s of None \<Rightarrow> (Throws TypeError, s) | Some r \<Rightarrow> (Returns r, s))"

text \<open>
  Modelled from the spec: \<^verbatim>\<open>addAction(action, {sync: 1})\<close> of the absent class renders
  the button of the action in the toolbar; it is recorded as an effect.
\<close>

definition addAction :: "rte \<Rightarrow> val \<Rightarrow> unit prog" where
  "addAction r action = emit (AddAction action)"

text \<open>
  \<^verbatim>\<open>add(name, action = {}) { action.name = name; globalRte.getActions().push(action);
  globalRte.addAction(action, {sync: 1}); }\<close>
  The default applies to an omitted (undefined) argument only.
\<close>

definition add :: "val \<Rightarrow> val \<Rightarrow> val prog" where
  "add name action0 =
     thn (if action0 = Undefined then new_object else ret action0) (\<lambda>action.
     thn (set_prop action ''name'' name) (\<lambda>_.
     thn the_globalRte (\<lambda>r.
     thn (push (getActions r) action) (\<lambda>_.
     thn (addAction r action) (\<lambda>_.
     ret Undefined)))))"

text \<open>
  \<^verbatim>\<open>get(name) { let result; globalRte.getActions().forEach(action => {
  if (action.name == name) { result = action; } }); return result; }\<close>
  The callback runs on every element in order and may throw on \<^verbatim>\<open>action.name\<close>.
\<close>

fun scan :: "(addr \<Rightarrow> cell) \<Rightarrow> val \<Rightarrow> val list \<Rightarrow> val \<Rightarrow> val outcome" where
  "scan h name [] result = Returns result"
| "scan h name (action # rest) result =
     (case read_prop h action ''name'' of
        Throws e \<Rightarrow> Throws e
      | Returns n \<Rightarrow> scan h name rest (if loose_eq n name then action else result))"

definition get :: "val \<Rightarrow> val prog" where
  "get name =
     thn the_globalRte (\<lambda>r s.
       case elements (heap s) (getActions r) of
         None \<Rightarrow> (Throws TypeError, s)
       | Some xs \<Rightarrow> (scan (heap s) name xs Undefined, s))"

text \<open>\<^verbatim>\<open>getAll() { return globalRte.getActions(); }\<close>: the array itself, not a copy.\<close>

definition getAll :: "val prog" where
  "getAll = thn the_globalRte (\<lambda>r. ret (getActions r))"

text \<open>\<^verbatim>\<open>getToolbarEl() { return toolbar; }\<close>\<close>

definition getToolbarEl :: "val prog" where
  "getToolbarEl s = (Returns (case toolbar s of None \<Rightarrow> Undefined | Some t \<Rightarrow> Ref t), s)"

section \<open>The lifecycle hooks\<close>

definition toolbar_val :: "state \<Rightarrow> val" where
  "toolbar_val s = (case toolbar s of None \<Rightarrow> Undefined | Some t \<Rightarrow> Ref t)"

text \<open>\<^verbatim>\<open>document.createElement(tag)\<close>: a fresh element.\<close>

definition createElement :: "string \<Rightarrow> addr prog" where
  "createElement tag s =
     (Returns (next_addr s),
      s\<lparr>heap := (heap s)(next_addr s := empty_object), next_addr := Suc (next_addr s),
        effects := effects s @ [CreateElement (next_addr s) tag]\<rparr>)"

text \<open>
  \<^verbatim>\<open>initRte(el)\<close>: builds the settings from \<^verbatim>\<open>this.pfx\<close>, \<^verbatim>\<open>toolbar\<close>,
  \<^verbatim>\<open>this.actionbar\<close> and \<^verbatim>\<open>this.actions || config.actions\<close>, constructs an editor
  and copies its \<^verbatim>\<open>actionbar\<close> and \<^verbatim>\<open>actions\<close> to \<^verbatim>\<open>this\<close> when they are truthy.
\<close>

definition initRte :: "val \<Rightarrow> rte prog" where
  "initRte el =
     thn (\<lambda>s. if truthy (this_actions s) then ret (this_actions s) s
               else get_prop (config s) ''actions'' s) (\<lambda>acts s.
       let r = \<lparr>rte_el = el,
                rte_classes = (to_string (this_pfx s) @ ''actionbar'',
                               to_string (this_pfx s) @ ''action'',
                               to_string (this_pfx s) @ ''active''),
                rte_actions = acts,
                rte_actionbar = this_actionbar s,
                rte_actionbarContainer = toolbar_val s\<rparr>
       in (Returns r,
           s\<lparr>this_actionbar := (if truthy (rte_actionbar r) then rte_actionbar r else this_actionbar s),
             this_actions := (if truthy (rte_actions r) then rte_actions r else this_actions s),
             effects := effects s @ [Construct r]\<rparr>))"

text \<open>
  \<^verbatim>\<open>for (let name in defaults) { if (!(name in config)) { config[name] = defaults[name]; } }\<close>
  The table \<^verbatim>\<open>./config/config\<close> is not among the sources: it is a parameter, the
  list of its keys and values in enumeration order.
\<close>

fun apply_defaults :: "(string \<times> val) list \<Rightarrow> val \<Rightarrow> unit prog" where
  "apply_defaults [] cfg = ret ()"
| "apply_defaults ((name, v) # rest) cfg =
     thn (has_prop name cfg) (\<lambda>present.
     thn (if present then ret () else set_prop cfg name v) (\<lambda>_.
     apply_defaults rest cfg))"

text \<open>
  \<^verbatim>\<open>init(opts = {})\<close>, lines 45 to 69. It returns \<^verbatim>\<open>this\<close>, the module itself, which
  is no value of the store: the model returns nothing.
\<close>

definition init :: "(string \<times> val) list \<Rightarrow> val \<Rightarrow> unit prog" where
  "init defaults opts0 =
     thn (if opts0 = Undefined then new_object else ret opts0) (\<lambda>opts.
     thn (\<lambda>s. (Returns (), s\<lparr>config := opts\<rparr>)) (\<lambda>_.
     thn (apply_defaults defaults opts) (\<lambda>_.
     thn (get_prop opts ''pStylePrefix'') (\<lambda>ppfx.
     thn (if truthy ppfx
          then thn (get_prop opts ''stylePrefix'') (\<lambda>sp.
               set_prop opts ''stylePrefix'' (Str (to_string ppfx @ to_string sp)))
          else ret ()) (\<lambda>_.
     thn (get_prop opts ''stylePrefix'') (\<lambda>sp.
     thn (\<lambda>s. (Returns (), s\<lparr>this_pfx := sp\<rparr>)) (\<lambda>_.
     thn (get_prop opts ''actions'') (\<lambda>acts.
     thn (if truthy acts then ret acts else new_array) (\<lambda>acts'.
     thn (\<lambda>s. (Returns (), s\<lparr>actions := acts'\<rparr>)) (\<lambda>_.
     thn (createElement ''div'') (\<lambda>t.
     thn (\<lambda>s. (Returns (), s\<lparr>toolbar := Some t\<rparr>)) (\<lambda>_.
     thn (emit (SetClassName t (to_string ppfx @ ''rte-toolbar''))) (\<lambda>_.
     thn (createElement ''div'') (\<lambda>el.
     thn (initRte (Ref el)) (\<lambda>r.
     thn (\<lambda>s. (Returns (), s\<lparr>globalRte := Some r\<rparr>)) (\<lambda>_.
     emit (Listen t ''mousedown'')))))))))))))))))"

text \<open>\<^verbatim>\<open>toolbar.style.k = v\<close>: a TypeError while \<^verbatim>\<open>toolbar\<close> is undefined.\<close>

definition set_toolbar_style :: "string \<Rightarrow> string \<Rightarrow> unit prog" where
  "set_toolbar_style k v s =
     (case toolbar s of None \<Rightarrow> (Throws TypeError, s) | Some t \<Rightarrow> emit (SetStyle t k v) s)"

text \<open>
  A method call on a collaborator: it throws unless the receiver is an object.
\<close>

fun call_on :: "val \<Rightarrow> effect \<Rightarrow> unit prog" where
  "call_on (Ref a) e = emit e"
| "call_on (Fixed a) e = emit e"
| "call_on v e = throw TypeError"

text \<open>
  \<^verbatim>\<open>postRender(ev)\<close>, lines 77 to 81. Of the editor view \<^verbatim>\<open>ev\<close> the module uses only
  \<^verbatim>\<open>ev.model.get('Canvas').getToolsEl()\<close>, the field \<open>ev_toolsEl\<close> here.
\<close>

record ev =
  ev_toolsEl :: val

definition postRender :: "ev \<Rightarrow> val prog" where
  "postRender e =
     thn (set_toolbar_style ''pointerEvents'' ''all'') (\<lambda>_.
     thn (\<lambda>s. case toolbar s of
                 None \<Rightarrow> (Throws TypeError, s)
               | Some t \<Rightarrow> call_on (ev_toolsEl e) (AppendChild (ev_toolsEl e) t) s) (\<lambda>_.
     ret Undefined))"

text \<open>
  A component view: \<^verbatim>\<open>view.el\<close> and what \<^verbatim>\<open>view.getChildrenContainer()\<close> answers.
\<close>

record view =
  view_el :: val
  view_childrenContainer :: val

text \<open>
  \<^verbatim>\<open>enable(view, rte)\<close>, lines 205 to 223. What the editor's own \<^verbatim>\<open>enable\<close> answers
  (the custom one or the built-in one) is the argument \<open>answer\<close>.
\<close>

definition enable :: "view \<Rightarrow> val \<Rightarrow> val \<Rightarrow> val prog" where
  "enable vw rte0 answer =
     thn (\<lambda>s. (Returns (), s\<lparr>lastEl := view_el vw\<rparr>)) (\<lambda>_.
     thn (\<lambda>s. get_prop (config s) ''em'' s) (\<lambda>em.
     thn (\<lambda>s. (Returns (this_customRte s), s)) (\<lambda>customRte.
     thn (set_toolbar_style ''display'' []) (\<lambda>_.
     thn (if truthy customRte
          then call_on customRte (CustomEnable customRte (view_childrenContainer vw) rte0)
          else thn (initRte (view_childrenContainer vw)) (\<lambda>r.
               emit (RteEnable (view_childrenContainer vw)))) (\<lambda>_.
     thn (if truthy em
          then thn (emit SetTimeout) (\<lambda>_.
               thn (call_on em (EmOff em ''change:canvasOffset canvasScroll'')) (\<lambda>_.
               thn (call_on em (EmOn em ''change:canvasOffset canvasScroll'')) (\<lambda>_.
               call_on em (EmTrigger em ''rte:enable''))))
          else ret ()) (\<lambda>_.
     ret answer))))))"

text \<open>\<^verbatim>\<open>disable(view, rte)\<close>, lines 231 to 247.\<close>

definition disable :: "view \<Rightarrow> val \<Rightarrow> val prog" where
  "disable vw rte0 =
     thn (\<lambda>s. get_prop (config s) ''em'' s) (\<lambda>em.
     thn (\<lambda>s. (Returns (this_customRte s), s)) (\<lambda>customRte.
     thn (\<lambda>s. case toolbar s of None \<Rightarrow> (Throws TypeError, s) | Some t \<Rightarrow> (Returns (), s)) (\<lambda>_.
     thn (if truthy customRte
          then call_on customRte (CustomDisable customRte (view_childrenContainer vw) rte0)
          else call_on rte0 (RteDisable rte0)) (\<lambda>_.
     thn (set_toolbar_style ''display'' ''none'') (\<lambda>_.
     thn (set_toolbar_style ''top'' ''0'') (\<lambda>_.
     thn (set_toolbar_style ''left'' ''0'') (\<lambda>_.
     thn (if truthy em then call_on em (EmTrigger em ''rte:disable'') else ret ()) (\<lambda>_.
     ret Undefined))))))))"

section \<open>Sequences of public operations\<close>

text \<open>
  The operations a host can call once the module is initialised. A caller that
  catches a throw goes on with the state the throwing call left. The method
  \<^verbatim>\<open>udpatePosition\<close>, run by the timer and the events that \<^verbatim>\<open>enable\<close> registers, only
  writes the style of the toolbar from positions the canvas computes; it is not
  among them.
\<close>

datatype op =
    Add val val
  | Get val
  | GetAll
  | GetToolbarEl
  | Enable view val val
  | Disable view val
  | PostRender ev

fun run_op :: "op \<Rightarrow> val prog" where
  "run_op (Add name action) = add name action"
| "run_op (Get name) = get name"
| "run_op GetAll = getAll"
| "run_op GetToolbarEl = getToolbarEl"
| "run_op (Enable vw rte0 answer) = enable vw rte0 answer"
| "run_op (Disable vw rte0) = disable vw rte0"
| "run_op (PostRender e) = postRender e"

fun run_ops :: "op list \<Rightarrow> state \<Rightarrow> state" where
  "run_ops [] s = s"
| "run_ops (x # xs) s = run_ops xs (snd (run_op x s))"

text \<open>
  The state right after \<^verbatim>\<open>module.exports()\<close> has run, on a store \<open>h\<close> whose addresses
  below \<open>n\<close> are in use: \<^verbatim>\<open>config\<close> is a fresh \<^verbatim>\<open>{}\<close>, the other closure variables are
  undefined and \<^verbatim>\<open>customRte\<close> is null.
\<close>

definition module_exports :: "(addr \<Rightarrow> cell) \<Rightarrow> addr \<Rightarrow> state" where
  "module_exports h n =
     \<lparr>heap = h(n := empty_object), next_addr = Suc n, config = Ref n, toolbar = None,
      actions = Undefined, lastEl = Undefined, globalRte = None, this_customRte = Null,
      this_pfx = Undefined, this_actionbar = Undefined, this_actions = Undefined,
      effects = []\<rparr>"

section \<open>What getAll lists\<close>

text \<open>The contents of the array that \<^verbatim>\<open>getAll()\<close> returns; \<open>None\<close> when it throws
  or returns no array.\<close>

definition listed :: "state \<Rightarrow> val list option" where
  "listed s = (case getAll s of (Returns v, s') \<Rightarrow> elements (heap s') v | (Throws e, s') \<Rightarrow> None)"

text \<open>The object \<^verbatim>\<open>add\<close> works on: the argument, or the fresh \<^verbatim>\<open>{}\<close> of the default.\<close>

definition the_action :: "val \<Rightarrow> state \<Rightarrow> val" where
  "the_action action0 s = (if action0 = Undefined then Ref (next_addr s) else action0)"

text \<open>
  An action argument that \<^verbatim>\<open>add\<close> takes: an ordinary object, or omitted. Null, a
  string, a frozen object and a function are not.
\<close>

fun object_or_omitted :: "val \<Rightarrow> bool" where
  "object_or_omitted Undefined = True"
| "object_or_omitted (Ref a) = True"
| "object_or_omitted v = False"

fun nullish :: "val \<Rightarrow> bool" where
  "nullish Undefined = True"
| "nullish Null = True"
| "nullish v = False"

text \<open>
  An initialised module: \<^verbatim>\<open>globalRte\<close> holds an editor whose actions are an array
  of the store, allocated earlier. It is ready when, besides, none of the listed
  actions is undefined or null. This is how \<^verbatim>\<open>init\<close> leaves a module whose options
  hold such an array (lemmas \<open>init_initialised\<close> and \<open>init_ready\<close> below), and the
  public operations keep it so (\<open>run_ops_grows\<close>, \<open>run_ops_ready\<close>).
\<close>

definition initialised :: "state \<Rightarrow> bool" where
  "initialised s =
     (case globalRte s of
        None \<Rightarrow> False
      | Some r \<Rightarrow>
          (case getActions r of
             Ref a \<Rightarrow> a < next_addr s \<and> items (heap s a) \<noteq> None
           | _ \<Rightarrow> False))"

definition ready :: "state \<Rightarrow> bool" where
  "ready s =
     (initialised s \<and>
      (case listed s of None \<Rightarrow> False | Some xs \<Rightarrow> list_all (\<lambda>x. \<not> nullish x) xs))"

text \<open>\<^verbatim>\<open>action.name == name\<close>, false where reading the name throws.\<close>

definition named :: "(addr \<Rightarrow> cell) \<Rightarrow> val \<Rightarrow> val \<Rightarrow> bool" where
  "named h name x =
     (case read_prop h x ''name'' of Returns n \<Rightarrow> loose_eq n name | Throws e \<Rightarrow> False)"

text \<open>An object, of either kind.\<close>

fun is_object :: "val \<Rightarrow> bool" where
  "is_object (Ref a) = True"
| "is_object (Fixed a) = True"
| "is_object v = False"

text \<open>Undefined, null or a string: a value that \<^verbatim>\<open>==\<close> never has to convert.\<close>

fun primitive :: "val \<Rightarrow> bool" where
  "primitive (Ref a) = False"
| "primitive (Fixed a) = False"
| "primitive v = True"

text \<open>
  The \<^verbatim>\<open>name\<close> of every listed action reads, and reads as a primitive: the scan of
  \<^verbatim>\<open>get\<close> for a primitive name then converts no object.
\<close>

definition plain_names :: "state \<Rightarrow> bool" where
  "plain_names s =
     (case listed s of
        None \<Rightarrow> False
      | Some xs \<Rightarrow>
          list_all (\<lambda>x. case read_prop (heap s) x ''name'' of
                          Returns n \<Rightarrow> primitive n | Throws e \<Rightarrow> False) xs)"

text \<open>The object a value refers to, if any.\<close>

fun refers :: "val \<Rightarrow> addr option" where
  "refers (Ref a) = Some a"
| "refers (Fixed a) = Some a"
| "refers v = None"

text \<open>An operation that passes the object at \<open>b\<close> to \<^verbatim>\<open>add\<close>.\<close>

fun adds_object :: "addr \<Rightarrow> op \<Rightarrow> bool" where
  "adds_object b (Add name action) = (refers action = Some b)"
| "adds_object b x = False"

text \<open>
  An effect that leaves the toolbar \<open>t\<close> the only element written to, and creates no
  element.
\<close>

fun on_toolbar :: "addr option \<Rightarrow> effect \<Rightarrow> bool" where
  "on_toolbar t (CreateElement a tag) = False"
| "on_toolbar t (SetClassName a c) = (t = Some a)"
| "on_toolbar t (SetStyle a k v) = (t = Some a)"
| "on_toolbar t (Listen a e) = (t = Some a)"
| "on_toolbar t (AppendChild p a) = (t = Some a)"
| "on_toolbar t e = True"

subsection \<open>A small editor\<close>

text \<open>
  A store with the action \<^verbatim>\<open>{name: 'bold', icon: '<b>B</b>'}\<close> at address 1, the array holding it at
  address 0 and the options \<^verbatim>\<open>{actions: [bold], pStylePrefix: 'gjs-'}\<close> at address 2;
  the module created on it, whose own \<^verbatim>\<open>config\<close> object takes address 3, and
  initialised with these options and the defaults \<^verbatim>\<open>{stylePrefix: 'rte-'}\<close>; and the
  same after \<^verbatim>\<open>add('bold')\<close>.
\<close>

definition sample_store :: "addr \<Rightarrow> cell" where
  "sample_store =
     (\<lambda>_. empty_object)
       (0 := \<lparr>props = Map.empty, items = Some [Ref 1]\<rparr>,
        1 := \<lparr>props = [''name'' \<mapsto> Str ''bold'', ''icon'' \<mapsto> Str ''<b>B</b>''], items = None\<rparr>,
        2 := \<lparr>props = [''actions'' \<mapsto> Ref 0, ''pStylePrefix'' \<mapsto> Str ''gjs-''], items = None\<rparr>)"

definition sample :: state where
  "sample = snd (init [(''stylePrefix'', Str ''rte-'')] (Ref 2) (module_exports sample_store 3))"

definition sample_twice :: state where
  "sample_twice = snd (add (Str ''bold'') Undefined sample)"

text \<open>
  The small editor after \<^verbatim>\<open>postRender\<close>, \<^verbatim>\<open>enable\<close>, \<^verbatim>\<open>add('link')\<close> and \<^verbatim>\<open>disable\<close>; the
  object at address 3 stands for the tools element, the view's element and the
  editor that \<^verbatim>\<open>disable\<close> is given.
\<close>

definition sample_used :: state where
  "sample_used =
     run_ops [PostRender \<lparr>ev_toolsEl = Ref 3\<rparr>,
              Enable \<lparr>view_el = Ref 3, view_childrenContainer = Ref 3\<rparr> Undefined (Ref 3),
              Add (Str ''link'') Undefined,
              Disable \<lparr>view_el = Ref 3, view_childrenContainer = Ref 3\<rparr> (Ref 3)] sample"

subsection \<open>Relations between the state before and after a call\<close>

text \<open>\<open>keeps R m\<close>: whatever \<open>m\<close> does, returning or throwing, the states are related by \<open>R\<close>.\<close>

definition keeps :: "(state \<Rightarrow> state \<Rightarrow> bool) \<Rightarrow> 'a prog \<Rightarrow> bool" where
  "keeps R m = (\<forall>s. R s (snd (m s)))"

definition same_store :: "state \<Rightarrow> state \<Rightarrow> bool" where
  "same_store s s' = (heap s' = heap s \<and> next_addr s' = next_addr s \<and> globalRte s' = globalRte s)"

definition same_toolbar :: "state \<Rightarrow> state \<Rightarrow> bool" where
  "same_toolbar s s' =
     (toolbar s' = toolbar s \<and> config s' = config s \<and>
      (\<exists>es. effects s' = effects s @ es \<and> list_all (on_toolbar (toolbar s)) es))"

definition same_config :: "state \<Rightarrow> state \<Rightarrow> bool" where
  "same_config s s' = (config s' = config s)"

definition steady :: "state \<Rightarrow> state \<Rightarrow> bool" where
  "steady s s' =
     (toolbar s' = toolbar s \<and> next_addr s \<le> next_addr s' \<and>
      (\<exists>es. effects s' = effects s @ es))"

text \<open>\<open>establishes Q m\<close>: when \<open>m\<close> returns, the states are related by \<open>Q\<close>.\<close>

definition establishes :: "(state \<Rightarrow> state \<Rightarrow> bool) \<Rightarrow> 'a prog \<Rightarrow> bool" where
  "establishes Q m = (\<forall>s y s'. m s = (Returns y, s') \<longrightarrow> Q s s')"

definition made_toolbar :: "state \<Rightarrow> state \<Rightarrow> bool" where
  "made_toolbar s s' =
     (\<exists>t. toolbar s' = Some t \<and> next_addr s \<le> t \<and> t < next_addr s' \<and>
          CreateElement t ''div'' \<in> set (effects s'))"

section \<open>Lemmas\<close>

lemmas prog_defs = thn_def ret_def throw_def emit_def get_prop_def the_globalRte_def
  addAction_def new_object_def new_array_def createElement_def

subsection \<open>scan\<close>

lemma loose_eq_refl: "loose_eq v v"
  by (cases v) simp_all

lemma read_prop_total: "\<not> nullish x \<Longrightarrow> \<exists>n. read_prop h x k = Returns n"
  by (cases x) simp_all

lemma scan_no_match:
  "list_all (\<lambda>x. \<not> nullish x) xs \<Longrightarrow> list_all (\<lambda>x. \<not> named h name x) xs \<Longrightarrow>
   scan h name xs r = Returns r"
proof (induction xs arbitrary: r)
  case Nil
  then show ?case by simp
next
  case (Cons x xs)
  from Cons.prems obtain n where n: "read_prop h x ''name'' = Returns n"
    using read_prop_total by fastforce
  with Cons.prems have "\<not> loose_eq n name" by (simp add: named_def)
  with n Cons show ?case by simp
qed

lemma scan_last_match:
  "list_all (\<lambda>x. \<not> nullish x) (ys @ x # zs) \<Longrightarrow> named h name x \<Longrightarrow>
   list_all (\<lambda>z. \<not> named h name z) zs \<Longrightarrow> scan h name (ys @ x # zs) r = Returns x"
proof (induction ys arbitrary: r)
  case Nil
  then obtain n where "read_prop h x ''name'' = Returns n" "loose_eq n name"
    by (auto simp: named_def split: outcome.splits)
  with Nil show ?case by (simp add: scan_no_match)
next
  case (Cons y ys)
  from Cons.prems obtain n where "read_prop h y ''name'' = Returns n"
    using read_prop_total by fastforce
  with Cons show ?case by simp
qed

lemma scan_result:
  "list_all (\<lambda>x. \<not> nullish x) xs \<Longrightarrow>
   \<exists>v. scan h name xs r = Returns v \<and>
       (if list_ex (named h name) xs then v \<in> set xs \<and> named h name v else v = r)"
proof (induction xs arbitrary: r)
  case Nil
  then show ?case by simp
next
  case (Cons x xs)
  from Cons.prems obtain n where n: "read_prop h x ''name'' = Returns n"
    using read_prop_total by fastforce
  have nx: "named h name x = loose_eq n name" by (simp add: named_def n)
  from Cons.prems have ok: "list_all (\<lambda>x. \<not> nullish x) xs" by simp
  from Cons.IH [OF ok, of "if loose_eq n name then x else r"]
  obtain v where v: "scan h name xs (if loose_eq n name then x else r) = Returns v"
    "if list_ex (named h name) xs then v \<in> set xs \<and> named h name v
     else v = (if loose_eq n name then x else r)" by blast
  from v n have "scan h name (x # xs) r = Returns v" by simp
  moreover from v(2) nx
  have "if list_ex (named h name) (x # xs) then v \<in> set (x # xs) \<and> named h name v else v = r"
    by (auto split: if_splits)
  ultimately show ?case by blast
qed

subsection \<open>get, getAll on an initialised module\<close>

lemma listed_eq:
  "globalRte s = Some r \<Longrightarrow> getActions r = Ref arr \<Longrightarrow> listed s = items (heap s arr)"
  by (simp add: listed_def getAll_def thn_def the_globalRte_def ret_def)

lemma initialisedE:
  assumes "initialised s"
  obtains r arr xs where "globalRte s = Some r" "getActions r = Ref arr" "arr < next_addr s"
    "items (heap s arr) = Some xs" "listed s = Some xs"
proof -
  from assms obtain r arr xs where *: "globalRte s = Some r" "getActions r = Ref arr"
    "arr < next_addr s" "items (heap s arr) = Some xs"
    unfolding initialised_def by (auto split: option.splits val.splits)
  from * listed_eq [OF *(1,2)] show thesis by (intro that [of r arr xs]) simp_all
qed

lemma get_eq:
  "globalRte s = Some r \<Longrightarrow> getActions r = Ref arr \<Longrightarrow> items (heap s arr) = Some xs \<Longrightarrow>
   get name s = (scan (heap s) name xs Undefined, s)"
  by (simp add: get_def thn_def the_globalRte_def)

lemma ready_listed:
  assumes "ready s"
  obtains xs where "listed s = Some xs" "list_all (\<lambda>x. \<not> nullish x) xs"
    "\<And>name. get name s = (scan (heap s) name xs Undefined, s)"
proof -
  from assms have "initialised s" by (simp add: ready_def)
  then obtain r arr xs where *: "globalRte s = Some r" "getActions r = Ref arr"
    "items (heap s arr) = Some xs" "listed s = Some xs"
    by (rule initialisedE)
  from assms * have "list_all (\<lambda>x. \<not> nullish x) xs" by (simp add: ready_def)
  with * show thesis
    by (intro that [of xs]) (simp_all add: get_eq [OF *(1,2,3)])
qed

subsection \<open>add\<close>

lemma add_default:
  "add name Undefined s =
     add name (Ref (next_addr s))
       (s\<lparr>heap := (heap s)(next_addr s := empty_object), next_addr := Suc (next_addr s)\<rparr>)"
  by (simp add: add_def thn_def new_object_def ret_def)

lemma add_Ref:
  assumes "globalRte s = Some r" "getActions r = Ref arr" "items (heap s arr) = Some xs"
  shows "add name (Ref a) s =
     (Returns Undefined,
      s\<lparr>heap := ((heap s)(a := (heap s a)\<lparr>props := (props (heap s a))(''name'' \<mapsto> name)\<rparr>))
                 (arr := (((heap s)(a := (heap s a)\<lparr>props := (props (heap s a))(''name'' \<mapsto> name)\<rparr>)) arr)
                            \<lparr>items := Some (xs @ [Ref a])\<rparr>),
        effects := effects s @ [AddAction (Ref a)]\<rparr>)"
  using assms
  by (cases "a = arr") (simp_all add: add_def thn_def ret_def the_globalRte_def addAction_def emit_def)

lemma add_refused:
  "\<not> object_or_omitted action \<Longrightarrow> add name action s = (Throws TypeError, s)"
  by (cases action) (simp_all add: add_def thn_def ret_def)

lemma add_Ref_returns:
  assumes "add name (Ref a) s = (Returns v, s')"
  obtains r arr xs where "globalRte s = Some r" "getActions r = Ref arr"
    "items (heap s arr) = Some xs"
proof (cases "globalRte s")
  case None
  with assms show thesis by (simp add: add_def thn_def ret_def the_globalRte_def)
next
  case (Some r)
  show thesis
  proof (cases "getActions r")
    case (Ref arr)
    show thesis
    proof (cases "items (heap s arr)")
      case None
      with assms Some Ref show thesis
        by (cases "a = arr") (simp_all add: add_def thn_def ret_def the_globalRte_def)
    next
      case (Some xs)
      with \<open>globalRte s = Some r\<close> Ref show thesis by (rule that)
    qed
  qed (use assms Some in \<open>simp_all add: add_def thn_def ret_def the_globalRte_def\<close>)
qed

text \<open>What a returning add did, whatever the state it started from.\<close>

lemma add_returns:
  assumes "add name action s = (Returns v, s')"
  obtains r arr xs a where
    "the_action action s = Ref a" "globalRte s = Some r" "getActions r = Ref arr"
    "globalRte s' = Some r"
    "items (heap s arr) = Some xs" "items (heap s' arr) = Some (xs @ [Ref a])"
    "props (heap s' a) = (if action = Undefined then Map.empty else props (heap s a))(''name'' \<mapsto> name)"
    "a \<noteq> arr \<longrightarrow> items (heap s' a) = (if action = Undefined then None else items (heap s a))"
    "v = Undefined"
    "next_addr s' = (if action = Undefined then Suc (next_addr s) else next_addr s)"
    "\<forall>b. b \<noteq> a \<longrightarrow> b \<noteq> arr \<longrightarrow> heap s' b = heap s b"
    "toolbar s' = toolbar s" "effects s' = effects s @ [AddAction (Ref a)]"
    "\<forall>b. b \<noteq> a \<longrightarrow> props (heap s' b) = props (heap s b)"
proof (cases "object_or_omitted action")
  case False
  with assms show thesis by (simp add: add_refused)
next
  case True
  define s1 where "s1 = (if action = Undefined
     then s\<lparr>heap := (heap s)(next_addr s := empty_object), next_addr := Suc (next_addr s)\<rparr> else s)"
  from True obtain a where a: "the_action action s = Ref a"
    by (cases action) (simp_all add: the_action_def)
  from True a have run: "add name action s = add name (Ref a) s1"
    by (cases action) (simp_all add: the_action_def s1_def add_default)
  with assms have ret: "add name (Ref a) s1 = (Returns v, s')" by simp
  then obtain r arr xs where g: "globalRte s1 = Some r" "getActions r = Ref arr"
    "items (heap s1 arr) = Some xs" by (rule add_Ref_returns)
  have fresh: "action = Undefined \<Longrightarrow> a = next_addr s" using a by (simp add: the_action_def)
  have ne: "action = Undefined \<Longrightarrow> arr \<noteq> next_addr s"
    using g(3) by (auto simp: s1_def empty_object_def)
  from ret have s': "s' = s1\<lparr>heap := ((heap s1)(a := (heap s1 a)\<lparr>props := (props (heap s1 a))(''name'' \<mapsto> name)\<rparr>))
                 (arr := (((heap s1)(a := (heap s1 a)\<lparr>props := (props (heap s1 a))(''name'' \<mapsto> name)\<rparr>)) arr)
                            \<lparr>items := Some (xs @ [Ref a])\<rparr>),
        effects := effects s1 @ [AddAction (Ref a)]\<rparr>" and v: "v = Undefined"
    by (simp_all add: add_Ref [OF g])
  show thesis
  proof (rule that [of a r arr xs])
    show "the_action action s = Ref a" by (rule a)
    show "globalRte s = Some r" using g(1) by (simp add: s1_def split: if_splits)
    show "getActions r = Ref arr" by (rule g(2))
    show "globalRte s' = Some r" using g(1) by (simp add: s')
    show "items (heap s arr) = Some xs" using g(3) ne by (simp add: s1_def split: if_splits)
    show "items (heap s' arr) = Some (xs @ [Ref a])" by (simp add: s')
    show "props (heap s' a) = (if action = Undefined then Map.empty else props (heap s a))(''name'' \<mapsto> name)"
      using fresh by (cases "a = arr") (simp_all add: s' s1_def empty_object_def)
    show "a \<noteq> arr \<longrightarrow> items (heap s' a) = (if action = Undefined then None else items (heap s a))"
      using fresh by (simp add: s' s1_def empty_object_def)
    show "v = Undefined" by (rule v)
    show "next_addr s' = (if action = Undefined then Suc (next_addr s) else next_addr s)"
      by (simp add: s' s1_def)
    show "\<forall>b. b \<noteq> a \<longrightarrow> b \<noteq> arr \<longrightarrow> heap s' b = heap s b"
      using fresh by (auto simp: s' s1_def)
    show "toolbar s' = toolbar s" by (simp add: s' s1_def)
    show "effects s' = effects s @ [AddAction (Ref a)]" by (simp add: s' s1_def)
    show "\<forall>b. b \<noteq> a \<longrightarrow> props (heap s' b) = props (heap s b)"
      using fresh by (auto simp: s' s1_def)
  qed
qed

text \<open>On an initialised module add returns for an object and for an omitted action.\<close>

lemma add_total:
  assumes "initialised s" "object_or_omitted action"
  shows "\<exists>s'. add name action s = (Returns Undefined, s')"
proof -
  from assms(1) obtain r arr xs where g: "globalRte s = Some r" "getActions r = Ref arr"
    "arr < next_addr s" "items (heap s arr) = Some xs" by (rule initialisedE)
  show ?thesis
  proof (cases action)
    case Undefined
    let ?s1 = "s\<lparr>heap := (heap s)(next_addr s := empty_object), next_addr := Suc (next_addr s)\<rparr>"
    from g have "globalRte ?s1 = Some r" "items (heap ?s1 arr) = Some xs" by simp_all
    from add_Ref [OF this(1) g(2) this(2)] Undefined show ?thesis
      by (simp add: add_default)
  next
    case (Ref a)
    with add_Ref [OF g(1,2,4)] show ?thesis by simp
  qed (use assms(2) in simp_all)
qed

lemma add_initialised:
  assumes "initialised s" "add name action s = (Returns v, s')"
  shows "initialised s'"
proof -
  from assms(2) obtain r arr xs a where *:
    "globalRte s = Some r" "getActions r = Ref arr" "globalRte s' = Some r"
    "items (heap s arr) = Some xs" "items (heap s' arr) = Some (xs @ [Ref a])"
    "next_addr s' = (if action = Undefined then Suc (next_addr s) else next_addr s)"
    by (rule add_returns)
  with assms(1) show ?thesis by (auto simp: initialised_def)
qed

subsection \<open>Frames\<close>

lemma keeps_thn:
  assumes "\<And>a b c. R a b \<Longrightarrow> R b c \<Longrightarrow> R a c" "keeps R m" "\<And>x. keeps R (f x)"
  shows "keeps R (thn m f)"
  unfolding keeps_def
proof
  fix s
  from assms(2) have m: "R s (snd (m s))" by (simp add: keeps_def)
  show "R s (snd (thn m f s))"
  proof (cases "m s")
    case (Pair out s1)
    show ?thesis
    proof (cases out)
      case (Returns x)
      from assms(3) have "R s1 (snd (f x s1))" by (simp add: keeps_def)
      with m Pair Returns show ?thesis by (auto simp: thn_def intro: assms(1))
    next
      case (Throws e)
      with m Pair show ?thesis by (simp add: thn_def)
    qed
  qed
qed

lemma keeps_if: "keeps R m \<Longrightarrow> keeps R n \<Longrightarrow> keeps R (if c then m else n)"
  by simp

lemma same_store_trans: "same_store a b \<Longrightarrow> same_store b c \<Longrightarrow> same_store a c"
  by (simp add: same_store_def)

lemma same_store_emit: "keeps same_store (emit e)"
  by (simp add: keeps_def same_store_def emit_def)

lemma same_store_call_on: "keeps same_store (call_on v e)"
  by (cases v) (simp_all add: keeps_def same_store_def emit_def throw_def)

lemma same_store_style: "keeps same_store (set_toolbar_style k v)"
  by (simp add: keeps_def same_store_def set_toolbar_style_def emit_def split: option.splits)

lemma same_store_initRte: "keeps same_store (initRte el)"
  by (simp add: keeps_def same_store_def initRte_def thn_def ret_def get_prop_def Let_def
      split: outcome.splits)

lemma same_store_thn:
  "keeps same_store m \<Longrightarrow> (\<And>x. keeps same_store (f x)) \<Longrightarrow> keeps same_store (thn m f)"
  by (rule keeps_thn [of same_store]) (rule same_store_trans)

lemma same_store_append:
  "keeps same_store
     (\<lambda>s. case toolbar s of None \<Rightarrow> (Throws TypeError, s)
                           | Some t \<Rightarrow> call_on v (AppendChild v t) s)"
  by (cases v) (simp_all add: keeps_def same_store_def emit_def throw_def split: option.splits)

lemmas same_store_intros =
  same_store_thn keeps_if same_store_emit same_store_call_on
  same_store_style same_store_append same_store_initRte

lemma same_store_get: "keeps same_store (get name)"
  by (simp add: keeps_def same_store_def get_def thn_def the_globalRte_def split: option.splits)

lemma same_store_getAll: "keeps same_store getAll"
  by (simp add: keeps_def same_store_def getAll_def thn_def the_globalRte_def ret_def split: option.splits)

lemma same_store_getToolbarEl: "keeps same_store getToolbarEl"
  by (simp add: keeps_def same_store_def getToolbarEl_def)

lemma same_store_postRender: "keeps same_store (postRender e)"
  unfolding postRender_def
  by (intro same_store_intros) (simp_all add: keeps_def same_store_def ret_def)

lemma same_store_enable: "keeps same_store (enable vw rte0 answer)"
  unfolding enable_def
  by (intro same_store_intros)
     (simp_all add: keeps_def same_store_def ret_def get_prop_def)

lemma same_store_disable: "keeps same_store (disable vw rte0)"
  unfolding disable_def
  by (intro same_store_intros)
     (simp_all add: keeps_def same_store_def ret_def get_prop_def split: option.splits)


lemma same_toolbar_refl: "same_toolbar s s"
  by (simp add: same_toolbar_def)

lemma same_toolbar_trans: "same_toolbar a b \<Longrightarrow> same_toolbar b c \<Longrightarrow> same_toolbar a c"
  by (auto simp: same_toolbar_def)

lemma same_toolbar_emit: "(\<And>t. on_toolbar t e) \<Longrightarrow> keeps same_toolbar (emit e)"
  by (simp add: keeps_def same_toolbar_def emit_def)

lemma same_toolbar_call_on: "(\<And>t. on_toolbar t e) \<Longrightarrow> keeps same_toolbar (call_on v e)"
  by (cases v) (simp_all add: keeps_def same_toolbar_def emit_def throw_def)

lemma same_toolbar_style: "keeps same_toolbar (set_toolbar_style k v)"
  by (simp add: keeps_def same_toolbar_def set_toolbar_style_def emit_def split: option.splits)

lemma same_toolbar_append:
  "keeps same_toolbar
     (\<lambda>s. case toolbar s of None \<Rightarrow> (Throws TypeError, s)
                           | Some t \<Rightarrow> call_on v (AppendChild v t) s)"
  by (cases v) (simp_all add: keeps_def same_toolbar_def emit_def throw_def split: option.splits)

lemma same_toolbar_initRte: "keeps same_toolbar (initRte el)"
  by (simp add: keeps_def same_toolbar_def initRte_def thn_def ret_def get_prop_def Let_def
      split: outcome.splits)

lemma same_toolbar_set_prop: "keeps same_toolbar (set_prop v k x)"
  by (cases v) (simp_all add: keeps_def same_toolbar_def)

lemma same_toolbar_push: "keeps same_toolbar (push v x)"
  by (cases v) (simp_all add: keeps_def same_toolbar_def split: option.splits)

lemma same_toolbar_thn:
  "keeps same_toolbar m \<Longrightarrow> (\<And>x. keeps same_toolbar (f x)) \<Longrightarrow> keeps same_toolbar (thn m f)"
  by (rule keeps_thn [of same_toolbar]) (rule same_toolbar_trans)

lemmas same_toolbar_intros =
  same_toolbar_thn keeps_if same_toolbar_emit
  same_toolbar_call_on same_toolbar_style same_toolbar_append same_toolbar_initRte
  same_toolbar_set_prop same_toolbar_push

lemma same_toolbar_add: "keeps same_toolbar (add name action)"
  unfolding add_def addAction_def
  by (intro same_toolbar_intros)
     (simp_all add: keeps_def same_toolbar_def ret_def new_object_def the_globalRte_def
        split: option.splits)

lemma same_toolbar_get: "keeps same_toolbar (get name)"
  by (simp add: keeps_def same_toolbar_def get_def thn_def the_globalRte_def split: option.splits)

lemma same_toolbar_getAll: "keeps same_toolbar getAll"
  by (simp add: keeps_def same_toolbar_def getAll_def thn_def the_globalRte_def ret_def split: option.splits)

lemma same_toolbar_getToolbarEl: "keeps same_toolbar getToolbarEl"
  by (simp add: keeps_def same_toolbar_def getToolbarEl_def)

lemma same_toolbar_postRender: "keeps same_toolbar (postRender e)"
  unfolding postRender_def
  by (intro same_toolbar_intros) (simp_all add: keeps_def same_toolbar_def ret_def)

lemma same_toolbar_enable: "keeps same_toolbar (enable vw rte0 answer)"
  unfolding enable_def
  by (intro same_toolbar_intros)
     (simp_all add: keeps_def same_toolbar_def ret_def get_prop_def)

lemma same_toolbar_disable: "keeps same_toolbar (disable vw rte0)"
  unfolding disable_def
  by (intro same_toolbar_intros)
     (simp_all add: keeps_def same_toolbar_def ret_def get_prop_def split: option.splits)

lemma same_toolbar_run_op: "same_toolbar s (snd (run_op x s))"
proof -
  have "keeps same_toolbar (run_op x)"
    by (cases x)
       (simp_all add: same_toolbar_add same_toolbar_get same_toolbar_getAll
          same_toolbar_getToolbarEl same_toolbar_postRender same_toolbar_enable
          same_toolbar_disable)
  then show ?thesis by (simp add: keeps_def)
qed

lemma same_toolbar_run_ops: "same_toolbar s (run_ops xs s)"
proof (induction xs arbitrary: s)
  case Nil
  show ?case by (simp add: same_toolbar_refl)
next
  case (Cons x xs)
  from same_toolbar_run_op [of s x] Cons.IH [of "snd (run_op x s)"] show ?case
    by (auto intro: same_toolbar_trans)
qed

subsection \<open>The list never shrinks\<close>

lemma same_store_listed: "same_store s s' \<Longrightarrow> listed s' = listed s"
  by (simp add: same_store_def listed_def getAll_def thn_def the_globalRte_def ret_def
      split: option.splits)

lemma same_store_initialised: "same_store s s' \<Longrightarrow> initialised s \<Longrightarrow> initialised s'"
  by (auto simp: same_store_def initialised_def split: option.splits val.splits)

lemma add_thrown:
  assumes "initialised s" "add name action s = (Throws e, s')"
  shows "s' = s"
proof (cases "object_or_omitted action")
  case True
  from add_total [OF assms(1) True, of name] assms(2) show ?thesis by auto
next
  case False
  with assms(2) show ?thesis by (simp add: add_refused)
qed

lemma run_op_grows:
  assumes "initialised s"
  shows "initialised (snd (run_op x s)) \<and>
         (\<exists>ys. listed (snd (run_op x s)) = Some (the (listed s) @ ys) \<and>
               list_all (\<lambda>y. \<not> nullish y) ys)"
proof -
  from assms obtain xs where xs: "listed s = Some xs" by (rule initialisedE)
  have quiet: "?thesis" if "same_store s (snd (run_op x s))"
    using that assms xs by (simp add: same_store_listed same_store_initialised)
  show ?thesis
  proof (cases x)
    case (Add name action)
    show ?thesis
    proof (cases "add name action s")
      case (Pair out s')
      show ?thesis
      proof (cases out)
        case (Returns v)
        with Pair have "add name action s = (Returns v, s')" by simp
        then obtain r arr xs' a where *: "globalRte s = Some r" "getActions r = Ref arr"
          "globalRte s' = Some r" "items (heap s arr) = Some xs'"
          "items (heap s' arr) = Some (xs' @ [Ref a])"
          by (rule add_returns)
        from Pair Returns assms have "initialised s'" by (auto intro: add_initialised)
        moreover have "listed s = Some xs'" "listed s' = Some (xs' @ [Ref a])"
          using * by (simp_all add: listed_eq)
        ultimately show ?thesis using Add Pair by simp
      next
        case (Throws e)
        with Pair assms have "s' = s" by (auto dest: add_thrown)
        with Add Pair assms xs show ?thesis by simp
      qed
    qed
  next
    case (Get name)
    with same_store_get show ?thesis by (intro quiet) (simp add: keeps_def)
  next
    case GetAll
    with same_store_getAll show ?thesis by (intro quiet) (simp add: keeps_def)
  next
    case GetToolbarEl
    with same_store_getToolbarEl show ?thesis by (intro quiet) (simp add: keeps_def)
  next
    case (Enable vw rte0 answer)
    with same_store_enable show ?thesis by (intro quiet) (simp add: keeps_def)
  next
    case (Disable vw rte0)
    with same_store_disable show ?thesis by (intro quiet) (simp add: keeps_def)
  next
    case (PostRender e)
    with same_store_postRender show ?thesis by (intro quiet) (simp add: keeps_def)
  qed
qed

lemma run_ops_grows:
  "initialised s \<Longrightarrow> listed s = Some xs \<Longrightarrow>
   initialised (run_ops ops s) \<and>
   (\<exists>ys. listed (run_ops ops s) = Some (xs @ ys) \<and> list_all (\<lambda>y. \<not> nullish y) ys)"
proof (induction ops arbitrary: s xs)
  case Nil
  then show ?case by simp
next
  case (Cons x ops)
  from run_op_grows [OF Cons.prems(1), of x] Cons.prems(2)
  obtain ys where 1: "initialised (snd (run_op x s))" "listed (snd (run_op x s)) = Some (xs @ ys)"
    and ys: "list_all (\<lambda>y. \<not> nullish y) ys"
    by auto
  from Cons.IH [OF 1] obtain zs where "initialised (run_ops ops (snd (run_op x s)))"
    "listed (run_ops ops (snd (run_op x s))) = Some ((xs @ ys) @ zs)"
    "list_all (\<lambda>y. \<not> nullish y) zs" by blast
  with ys show ?case by (auto intro!: exI [of _ "ys @ zs"])
qed

text \<open>A ready module stays ready, whatever public operations are called.\<close>

lemma run_ops_ready:
  assumes "ready s"
  shows "ready (run_ops ops s)"
proof -
  from assms have i: "initialised s" by (simp add: ready_def)
  from assms obtain xs where xs: "listed s = Some xs" "list_all (\<lambda>x. \<not> nullish x) xs"
    by (auto elim: ready_listed)
  from run_ops_grows [OF i xs(1), of ops] xs(2) show ?thesis
    by (auto simp: ready_def)
qed


subsection \<open>init creates the toolbar\<close>

lemma steady_trans: "steady a b \<Longrightarrow> steady b c \<Longrightarrow> steady a c"
  by (auto simp: steady_def)

lemma steady_thn:
  "keeps steady m \<Longrightarrow> (\<And>x. keeps steady (f x)) \<Longrightarrow> keeps steady (thn m f)"
  by (rule keeps_thn [of steady]) (rule steady_trans)

lemma steady_made: "steady a b \<Longrightarrow> made_toolbar b c \<Longrightarrow> made_toolbar a c"
  by (auto simp: steady_def made_toolbar_def)

lemma establishes_thn:
  assumes "keeps steady m" "\<And>x. establishes made_toolbar (f x)"
  shows "establishes made_toolbar (thn m f)"
  unfolding establishes_def
proof (intro allI impI)
  fix s y s'
  assume run: "thn m f s = (Returns y, s')"
  then obtain x s1 where 1: "m s = (Returns x, s1)" "f x s1 = (Returns y, s')"
    by (auto simp: thn_def split: prod.splits outcome.splits)
  from assms(1) 1(1) have "steady s s1" by (auto simp: keeps_def dest: spec [of _ s])
  moreover from assms(2) 1(2) have "made_toolbar s1 s'" by (auto simp: establishes_def)
  ultimately show "made_toolbar s s'" by (rule steady_made)
qed

lemma steady_set_prop: "keeps steady (set_prop v k x)"
  by (cases v) (simp_all add: keeps_def steady_def)

lemma steady_has_prop: "keeps steady (has_prop k v)"
  by (cases v) (simp_all add: keeps_def steady_def)

lemma steady_get_prop: "keeps steady (get_prop v k)"
  by (simp add: keeps_def steady_def get_prop_def)

lemma steady_ret: "keeps steady (ret x)"
  by (simp add: keeps_def steady_def ret_def)

lemma steady_new_object: "keeps steady new_object"
  by (simp add: keeps_def steady_def new_object_def)

lemma steady_new_array: "keeps steady new_array"
  by (simp add: keeps_def steady_def new_array_def)

lemma steady_emit: "keeps steady (emit e)"
  by (simp add: keeps_def steady_def emit_def)

lemma steady_createElement: "keeps steady (createElement tag)"
  by (simp add: keeps_def steady_def createElement_def)

lemma steady_initRte: "keeps steady (initRte el)"
  by (simp add: keeps_def steady_def initRte_def thn_def ret_def get_prop_def Let_def
      split: outcome.splits)

lemmas steady_intros = steady_thn keeps_if steady_set_prop steady_has_prop steady_get_prop
  steady_ret steady_new_object steady_new_array steady_emit steady_createElement steady_initRte

lemma steady_apply_defaults: "keeps steady (apply_defaults ds cfg)"
proof (induction ds)
  case Nil
  show ?case by (simp add: steady_ret)
next
  case (Cons d ds)
  obtain name v where d: "d = (name, v)" by (cases d)
  show ?case unfolding d apply_defaults.simps
    by (intro steady_intros Cons.IH)
qed

lemma init_tail:
  "establishes made_toolbar
     (thn (createElement ''div'') (\<lambda>t.
      thn (\<lambda>s. (Returns (), s\<lparr>toolbar := Some t\<rparr>)) (\<lambda>_.
      thn (emit (SetClassName t c)) (\<lambda>_.
      thn (createElement ''div'') (\<lambda>el.
      thn (initRte (Ref el)) (\<lambda>r.
      thn (\<lambda>s. (Returns (), s\<lparr>globalRte := Some r\<rparr>)) (\<lambda>_.
      emit (Listen t ''mousedown''))))))))"
  (is "establishes made_toolbar (thn _ (\<lambda>t. thn _ (\<lambda>_. ?rest t)))")
proof -
  have rest: "keeps steady (?rest t)" for t
    by (intro steady_intros) (simp add: keeps_def steady_def)
  show ?thesis
    unfolding establishes_def
  proof (intro allI impI)
    fix s :: state and y :: unit and s' :: state
    let ?s2 = "s\<lparr>heap := (heap s)(next_addr s := empty_object), next_addr := Suc (next_addr s),
        effects := effects s @ [CreateElement (next_addr s) ''div''], toolbar := Some (next_addr s)\<rparr>"
    assume "thn (createElement ''div'') (\<lambda>t.
      thn (\<lambda>s. (Returns (), s\<lparr>toolbar := Some t\<rparr>)) (\<lambda>_. ?rest t)) s = (Returns y, s')"
    then have "?rest (next_addr s) ?s2 = (Returns y, s')"
      by (simp add: thn_def createElement_def)
    with rest [of "next_addr s"] have "steady ?s2 s'"
      by (auto simp: keeps_def dest: spec [of _ ?s2])
    then show "made_toolbar s s'"
      by (auto simp: steady_def made_toolbar_def)
  qed
qed

lemma init_made_toolbar: "establishes made_toolbar (init defaults opts0)"
  unfolding init_def
  by (intro establishes_thn init_tail steady_intros steady_apply_defaults)
     (simp_all add: keeps_def steady_def)

subsection \<open>init leaves a configuration\<close>

lemma same_config_thn:
  "keeps same_config m \<Longrightarrow> (\<And>x. keeps same_config (f x)) \<Longrightarrow> keeps same_config (thn m f)"
  by (rule keeps_thn [of same_config]) (simp add: same_config_def)

lemma same_config_set_prop: "keeps same_config (set_prop v k x)"
  by (cases v) (simp_all add: keeps_def same_config_def)

lemma same_config_has_prop: "keeps same_config (has_prop k v)"
  by (cases v) (simp_all add: keeps_def same_config_def)

lemma same_config_get_prop: "keeps same_config (get_prop v k)"
  by (simp add: keeps_def same_config_def get_prop_def)

lemma same_config_ret: "keeps same_config (ret x)"
  by (simp add: keeps_def same_config_def ret_def)

lemma same_config_new_array: "keeps same_config new_array"
  by (simp add: keeps_def same_config_def new_array_def)

lemma same_config_emit: "keeps same_config (emit e)"
  by (simp add: keeps_def same_config_def emit_def)

lemma same_config_createElement: "keeps same_config (createElement tag)"
  by (simp add: keeps_def same_config_def createElement_def)

lemma same_config_initRte: "keeps same_config (initRte el)"
  by (simp add: keeps_def same_config_def initRte_def thn_def ret_def get_prop_def Let_def
      split: outcome.splits)

lemmas same_config_intros = same_config_thn keeps_if same_config_set_prop same_config_has_prop
  same_config_get_prop same_config_ret same_config_new_array same_config_emit
  same_config_createElement same_config_initRte

lemma same_config_apply_defaults: "keeps same_config (apply_defaults ds cfg)"
proof (induction ds)
  case Nil
  show ?case by (simp add: same_config_ret)
next
  case (Cons d ds)
  obtain name v where d: "d = (name, v)" by (cases d)
  show ?case unfolding d apply_defaults.simps
    by (intro same_config_intros Cons.IH)
qed

lemma apply_defaults_nullish:
  "nullish cfg \<Longrightarrow> apply_defaults ds cfg s = (Throws TypeError, s) \<or>
     apply_defaults ds cfg s = (Returns (), s)"
  by (cases ds; cases cfg) (auto simp: thn_def ret_def)

text \<open>When \<^verbatim>\<open>init\<close> returns, \<^verbatim>\<open>config\<close> holds the options, an object or a string.\<close>

lemma init_config:
  assumes "init defaults opts0 s0 = (Returns u, s)"
  shows "\<not> nullish (config s)"
proof -
  define rest :: "val \<Rightarrow> unit prog" where "rest = (\<lambda>opts.
     thn (apply_defaults defaults opts) (\<lambda>_.
     thn (get_prop opts ''pStylePrefix'') (\<lambda>ppfx.
     thn (if truthy ppfx
          then thn (get_prop opts ''stylePrefix'') (\<lambda>sp.
               set_prop opts ''stylePrefix'' (Str (to_string ppfx @ to_string sp)))
          else ret ()) (\<lambda>_.
     thn (get_prop opts ''stylePrefix'') (\<lambda>sp.
     thn (\<lambda>s. (Returns (), s\<lparr>this_pfx := sp\<rparr>)) (\<lambda>_.
     thn (get_prop opts ''actions'') (\<lambda>acts.
     thn (if truthy acts then ret acts else new_array) (\<lambda>acts'.
     thn (\<lambda>s. (Returns (), s\<lparr>actions := acts'\<rparr>)) (\<lambda>_.
     thn (createElement ''div'') (\<lambda>t.
     thn (\<lambda>s. (Returns (), s\<lparr>toolbar := Some t\<rparr>)) (\<lambda>_.
     thn (emit (SetClassName t (to_string ppfx @ ''rte-toolbar''))) (\<lambda>_.
     thn (createElement ''div'') (\<lambda>el.
     thn (initRte (Ref el)) (\<lambda>r.
     thn (\<lambda>s. (Returns (), s\<lparr>globalRte := Some r\<rparr>)) (\<lambda>_.
     emit (Listen t ''mousedown''))))))))))))))))"
  have init_eq: "init defaults opts0 =
     thn (if opts0 = Undefined then new_object else ret opts0) (\<lambda>opts.
     thn (\<lambda>s. (Returns (), s\<lparr>config := opts\<rparr>)) (\<lambda>_. rest opts))"
    unfolding init_def rest_def by (rule refl)
  have keeps: "keeps same_config (rest opts)" for opts
    unfolding rest_def
    by (intro same_config_intros same_config_apply_defaults)
       (simp_all add: keeps_def same_config_def)
  have throws: "fst (rest opts s1) = Throws TypeError" if "nullish opts" for opts s1
    using apply_defaults_nullish [OF that, of defaults s1] that
    by (cases opts) (auto simp: rest_def thn_def get_prop_def)
  from assms obtain opts s1 where
    1: "(if opts0 = Undefined then new_object else ret opts0) s0 = (Returns opts, s1)"
    and 2: "rest opts (s1\<lparr>config := opts\<rparr>) = (Returns u, s)"
    unfolding init_eq by (auto simp: thn_def split: prod.splits outcome.splits)
  from keeps [of opts] 2 have "config s = opts"
    by (auto simp: keeps_def same_config_def dest: spec [of _ "s1\<lparr>config := opts\<rparr>"])
  moreover from throws [of opts "s1\<lparr>config := opts\<rparr>"] 2 have "\<not> nullish opts" by auto
  ultimately show ?thesis by simp
qed


subsection \<open>What the hooks do to the toolbar\<close>

lemma read_config:
  "\<not> nullish (config s) \<Longrightarrow> \<exists>v. get_prop (config s) k s = (Returns v, s)"
  by (cases "config s") (simp_all add: get_prop_def)

lemma postRender_effects:
  assumes "toolbar s = Some t"
  shows "effects (snd (postRender e s)) =
           effects s @ SetStyle t ''pointerEvents'' ''all'' #
             (if is_object (ev_toolsEl e) then [AppendChild (ev_toolsEl e) t] else [])"
  using assms
  by (cases "ev_toolsEl e")
     (simp_all add: postRender_def set_toolbar_style_def thn_def ret_def emit_def throw_def)

lemma enable_effects:
  assumes "toolbar s = Some t" and "\<not> nullish (config s)"
  shows "\<exists>es. effects (snd (enable vw rte0 answer s)) = effects s @ SetStyle t ''display'' [] # es \<and>
              list_all (on_toolbar (Some t)) es"
proof -
  define editor :: "val \<Rightarrow> val \<Rightarrow> val prog" where "editor = (\<lambda>em customRte.
     thn (if truthy customRte
          then call_on customRte (CustomEnable customRte (view_childrenContainer vw) rte0)
          else thn (initRte (view_childrenContainer vw)) (\<lambda>r.
               emit (RteEnable (view_childrenContainer vw)))) (\<lambda>_.
     thn (if truthy em
          then thn (emit SetTimeout) (\<lambda>_.
               thn (call_on em (EmOff em ''change:canvasOffset canvasScroll'')) (\<lambda>_.
               thn (call_on em (EmOn em ''change:canvasOffset canvasScroll'')) (\<lambda>_.
               call_on em (EmTrigger em ''rte:enable''))))
          else ret ()) (\<lambda>_.
     ret answer)))"
  have enable_eq: "enable vw rte0 answer =
     thn (\<lambda>s. (Returns (), s\<lparr>lastEl := view_el vw\<rparr>)) (\<lambda>_.
     thn (\<lambda>s. get_prop (config s) ''em'' s) (\<lambda>em.
     thn (\<lambda>s. (Returns (this_customRte s), s)) (\<lambda>customRte.
     thn (set_toolbar_style ''display'' []) (\<lambda>_. editor em customRte))))"
    unfolding enable_def editor_def by (rule refl)
  have keeps: "keeps same_toolbar (editor em customRte)" for em customRte
    unfolding editor_def
    by (intro same_toolbar_intros) (simp_all add: keeps_def same_toolbar_def ret_def)
  let ?s1 = "s\<lparr>lastEl := view_el vw\<rparr>"
  let ?s2 = "?s1\<lparr>effects := effects s @ [SetStyle t ''display'' []]\<rparr>"
  from assms(2) obtain em where em: "get_prop (config ?s1) ''em'' ?s1 = (Returns em, ?s1)"
    using read_config [of ?s1 "''em''"] by auto
  have run: "enable vw rte0 answer s = editor em (this_customRte s) ?s2"
    unfolding enable_eq using em assms(1)
    by (simp add: thn_def set_toolbar_style_def emit_def)
  from keeps [of em "this_customRte s"] have "same_toolbar ?s2 (snd (editor em (this_customRte s) ?s2))"
    by (auto simp: keeps_def dest: spec [of _ ?s2])
  with run assms(1) show ?thesis by (auto simp: same_toolbar_def)
qed

lemma disable_effects:
  assumes "toolbar s = Some t" and "\<not> nullish (config s)"
  shows "if is_object (if truthy (this_customRte s) then this_customRte s else rte0)
         then \<exists>d es. effects (snd (disable vw rte0 s)) =
                  effects s @ d # SetStyle t ''display'' ''none'' # SetStyle t ''top'' ''0'' #
                    SetStyle t ''left'' ''0'' # es \<and>
                on_toolbar (Some t) d \<and> list_all (on_toolbar (Some t)) es
         else disable vw rte0 s = (Throws TypeError, s)"
proof -
  from assms(2) obtain em where em: "get_prop (config s) ''em'' s = (Returns em, s)"
    using read_config by blast
  show ?thesis
    using em assms(1)
    by (cases "this_customRte s"; cases rte0; cases em)
       (simp_all add: disable_def thn_def ret_def set_toolbar_style_def emit_def throw_def)
qed


subsection \<open>What add leaves alone\<close>

lemma add_frame:
  assumes "refers (the_action action s) \<noteq> Some b"
  shows "props (heap (snd (add name action s)) b) = props (heap s b)"
proof (cases "add name action s")
  case (Pair out s')
  show ?thesis
  proof (cases out)
    case (Returns v)
    with Pair have "add name action s = (Returns v, s')" by simp
    then obtain r arr xs a where "the_action action s = Ref a"
      "\<forall>b. b \<noteq> a \<longrightarrow> props (heap s' b) = props (heap s b)"
      by (rule add_returns)
    with assms Pair show ?thesis by simp
  next
    case (Throws e)
    show ?thesis
    proof (cases action)
      case Undefined
      with assms have "b \<noteq> next_addr s" by (simp add: the_action_def)
      then show ?thesis
        by (cases "globalRte s"; cases "getActions (the (globalRte s))")
           (auto simp: Undefined add_def thn_def new_object_def ret_def the_globalRte_def
              addAction_def emit_def split: option.splits)
    next
      case (Ref a)
      with assms have "b \<noteq> a" by (simp add: the_action_def)
      then show ?thesis
        by (cases "globalRte s"; cases "getActions (the (globalRte s))")
           (auto simp: Ref add_def thn_def ret_def the_globalRte_def
              addAction_def emit_def split: option.splits)
    qed (simp_all add: add_def thn_def ret_def)
  qed
qed

lemma add_next_addr: "next_addr s \<le> next_addr (snd (add name action s))"
  by (cases action; cases "globalRte s"; cases "getActions (the (globalRte s))")
     (auto simp: add_def thn_def new_object_def ret_def the_globalRte_def
        addAction_def emit_def split: option.splits)

lemma run_op_frame:
  assumes "\<not> adds_object b x" and "b < next_addr s"
  shows "props (heap (snd (run_op x s)) b) = props (heap s b) \<and>
         b < next_addr (snd (run_op x s))"
proof (cases x)
  case (Add name action)
  with assms have "refers (the_action action s) \<noteq> Some b"
    by (auto simp: the_action_def)
  with add_frame [of action s b name] add_next_addr [of s name action] assms(2) Add
  show ?thesis by simp
next
  case (Get name)
  with same_store_get assms(2) show ?thesis by (auto simp: keeps_def same_store_def)
next
  case GetAll
  with same_store_getAll assms(2) show ?thesis by (auto simp: keeps_def same_store_def)
next
  case GetToolbarEl
  with same_store_getToolbarEl assms(2) show ?thesis by (auto simp: keeps_def same_store_def)
next
  case (Enable vw rte0 answer)
  with same_store_enable assms(2) show ?thesis by (auto simp: keeps_def same_store_def)
next
  case (Disable vw rte0)
  with same_store_disable assms(2) show ?thesis by (auto simp: keeps_def same_store_def)
next
  case (PostRender e)
  with same_store_postRender assms(2) show ?thesis by (auto simp: keeps_def same_store_def)
qed

lemma run_ops_frame:
  "list_all (\<lambda>x. \<not> adds_object b x) ops \<Longrightarrow> b < next_addr s \<Longrightarrow>
   props (heap (run_ops ops s) b) = props (heap s b)"
proof (induction ops arbitrary: s)
  case Nil
  show ?case by simp
next
  case (Cons x ops)
  from Cons.prems have "\<not> adds_object b x" "list_all (\<lambda>x. \<not> adds_object b x) ops" by simp_all
  with run_op_frame [of b x s] Cons.prems(2) Cons.IH [of "snd (run_op x s)"]
  show ?case by simp
qed


subsection \<open>init leaves the module initialised\<close>

lemma apply_defaults_Ref:
  "\<exists>m. props (heap s a) \<subseteq>\<^sub>m m \<and>
       apply_defaults ds (Ref a) s =
         (Returns (), s\<lparr>heap := (heap s)(a := (heap s a)\<lparr>props := m\<rparr>)\<rparr>)"
proof (induction ds arbitrary: s)
  case Nil
  have "(heap s a)\<lparr>props := props (heap s a)\<rparr> = heap s a" by simp
  then have "s\<lparr>heap := (heap s)(a := (heap s a)\<lparr>props := props (heap s a)\<rparr>)\<rparr> = s"
    by (simp only: fun_upd_triv) simp
  then have "apply_defaults [] (Ref a) s =
      (Returns (), s\<lparr>heap := (heap s)(a := (heap s a)\<lparr>props := props (heap s a)\<rparr>)\<rparr>)"
    by (simp only: apply_defaults.simps ret_def)
  then show ?case by (intro exI [of _ "props (heap s a)"]) simp
next
  case (Cons d ds)
  obtain name v where d: "d = (name, v)" by (cases d)
  show ?case
  proof (cases "name \<in> dom (props (heap s a))")
    case True
    with Cons.IH [of s] d show ?thesis by (simp add: thn_def ret_def)
  next
    case False
    let ?s1 = "s\<lparr>heap := (heap s)(a := (heap s a)\<lparr>props := (props (heap s a))(name \<mapsto> v)\<rparr>)\<rparr>"
    from Cons.IH [of ?s1] obtain m where m: "props (heap ?s1 a) \<subseteq>\<^sub>m m"
      "apply_defaults ds (Ref a) ?s1 =
         (Returns (), ?s1\<lparr>heap := (heap ?s1)(a := (heap ?s1 a)\<lparr>props := m\<rparr>)\<rparr>)" by blast
    from False m(1) have "props (heap s a) \<subseteq>\<^sub>m m"
      by (auto simp: map_le_def dom_def)
    moreover from False d m(2) have "apply_defaults (d # ds) (Ref a) s =
         (Returns (), s\<lparr>heap := (heap s)(a := (heap s a)\<lparr>props := m\<rparr>)\<rparr>)"
      by (simp add: thn_def ret_def)
    ultimately show ?thesis by blast
  qed
qed


text \<open>
  \<^verbatim>\<open>init\<close> with options that hold an array of actions, on a module not initialised
  before, returns and leaves the module initialised, listing that array.
\<close>

lemma init_initialised:
  assumes "props (heap s0 a) ''actions'' = Some (Ref arr)" and "items (heap s0 arr) = Some xs"
    and "arr \<noteq> a" and "arr < next_addr s0" and "a < next_addr s0"
    and "\<not> truthy (this_actions s0)"
  shows "\<exists>s. init defaults (Ref a) s0 = (Returns (), s) \<and> initialised s \<and> listed s = Some xs"
proof -
  define finish :: "val \<Rightarrow> unit prog" where "finish = (\<lambda>ppfx.
     thn (get_prop (Ref a) ''stylePrefix'') (\<lambda>sp.
     thn (\<lambda>s. (Returns (), s\<lparr>this_pfx := sp\<rparr>)) (\<lambda>_.
     thn (get_prop (Ref a) ''actions'') (\<lambda>acts.
     thn (if truthy acts then ret acts else new_array) (\<lambda>acts'.
     thn (\<lambda>s. (Returns (), s\<lparr>actions := acts'\<rparr>)) (\<lambda>_.
     thn (createElement ''div'') (\<lambda>t.
     thn (\<lambda>s. (Returns (), s\<lparr>toolbar := Some t\<rparr>)) (\<lambda>_.
     thn (emit (SetClassName t (to_string ppfx @ ''rte-toolbar''))) (\<lambda>_.
     thn (createElement ''div'') (\<lambda>el.
     thn (initRte (Ref el)) (\<lambda>r.
     thn (\<lambda>s. (Returns (), s\<lparr>globalRte := Some r\<rparr>)) (\<lambda>_.
     emit (Listen t ''mousedown'')))))))))))))"
  define prefix :: "val \<Rightarrow> unit prog" where "prefix = (\<lambda>ppfx.
     if truthy ppfx
     then thn (get_prop (Ref a) ''stylePrefix'') (\<lambda>sp.
          set_prop (Ref a) ''stylePrefix'' (Str (to_string ppfx @ to_string sp)))
     else ret ())"
  have init_eq: "init defaults (Ref a) =
     thn (ret (Ref a)) (\<lambda>opts.
     thn (\<lambda>s. (Returns (), s\<lparr>config := Ref a\<rparr>)) (\<lambda>_.
     thn (apply_defaults defaults (Ref a)) (\<lambda>_.
     thn (get_prop (Ref a) ''pStylePrefix'') (\<lambda>ppfx.
     thn (prefix ppfx) (\<lambda>_. finish ppfx)))))"
    unfolding init_def finish_def prefix_def
    by (simp add: thn_def ret_def fun_eq_iff)
  have finish: "\<exists>s'. finish ppfx s = (Returns (), s') \<and> initialised s' \<and> listed s' = Some xs"
    if "props (heap s a) ''actions'' = Some (Ref arr)" "items (heap s arr) = Some xs"
      "arr < next_addr s" "a < next_addr s" "\<not> truthy (this_actions s)" "config s = Ref a"
    for s ppfx
    using that
    by (simp add: finish_def initRte_def thn_def ret_def get_prop_def emit_def createElement_def
        Let_def initialised_def listed_def getAll_def the_globalRte_def getActions_def)
  let ?s1 = "s0\<lparr>config := Ref a\<rparr>"
  from apply_defaults_Ref [of ?s1 a defaults] obtain m where
    m: "props (heap s0 a) \<subseteq>\<^sub>m m"
    "apply_defaults defaults (Ref a) ?s1 =
       (Returns (), ?s1\<lparr>heap := (heap ?s1)(a := (heap ?s1 a)\<lparr>props := m\<rparr>)\<rparr>)"
    by auto
  let ?s2 = "?s1\<lparr>heap := (heap ?s1)(a := (heap ?s1 a)\<lparr>props := m\<rparr>)\<rparr>"
  from m(1) assms(1) have acts: "m ''actions'' = Some (Ref arr)"
    by (auto simp: map_le_def dom_def)
  obtain ppfx where ppfx: "get_prop (Ref a) ''pStylePrefix'' ?s2 = (Returns ppfx, ?s2)"
    by (simp add: get_prop_def)
  have "\<exists>s3. prefix ppfx ?s2 = (Returns (), s3) \<and> props (heap s3 a) ''actions'' = Some (Ref arr) \<and>
      items (heap s3 arr) = Some xs \<and> arr < next_addr s3 \<and> a < next_addr s3 \<and>
      \<not> truthy (this_actions s3) \<and>
      config s3 = Ref a"
    using assms(2-) acts
    by (cases "truthy ppfx") (simp_all add: prefix_def thn_def ret_def get_prop_def)
  then obtain s3 where s3: "prefix ppfx ?s2 = (Returns (), s3)"
    "props (heap s3 a) ''actions'' = Some (Ref arr)" "items (heap s3 arr) = Some xs"
    "arr < next_addr s3" "a < next_addr s3" "\<not> truthy (this_actions s3)" "config s3 = Ref a"
    by blast
  from finish [OF s3(2-), of ppfx] obtain s where
    s: "finish ppfx s3 = (Returns (), s)" "initialised s" "listed s = Some xs" by blast
  have "init defaults (Ref a) s0 = (Returns (), s)"
    unfolding init_eq using m(2) ppfx s3(1) s(1)
    by (simp add: thn_def ret_def)
  with s show ?thesis by blast
qed

lemma init_ready:
  assumes "props (heap s0 a) ''actions'' = Some (Ref arr)" and "items (heap s0 arr) = Some xs"
    and "arr \<noteq> a" and "arr < next_addr s0" and "a < next_addr s0"
    and "\<not> truthy (this_actions s0)" and "list_all (\<lambda>x. \<not> nullish x) xs"
  shows "\<exists>s. init defaults (Ref a) s0 = (Returns (), s) \<and> ready s \<and> listed s = Some xs"
  using init_initialised [OF assms(1-6), of defaults] assms(7)
  by (auto simp: ready_def)

section \<open>The small editor, evaluated\<close>

lemmas sample_eval = sample_def init_def initRte_def module_exports_def sample_store_def
  prog_defs getActions_def toolbar_val_def Let_def empty_object_def

lemma sample_init:
  "init [(''stylePrefix'', Str ''rte-'')] (Ref 2) (module_exports sample_store 3) = (Returns (), sample)"
  by (simp add: sample_eval)

lemma sample_toolbar: "toolbar sample = Some 4"
  by (simp add: sample_eval)

lemma sample_next_addr: "next_addr sample = 6"
  by (simp add: sample_eval)

lemma sample_globalRte:
  "\<exists>r. globalRte sample = Some r \<and> getActions r = Ref 0"
  by (simp add: sample_eval)

lemma sample_heap:
  "heap sample 0 = \<lparr>props = Map.empty, items = Some [Ref 1]\<rparr>"
  "heap sample (Suc 0) =
     \<lparr>props = [''name'' \<mapsto> Str ''bold'', ''icon'' \<mapsto> Str ''<b>B</b>''], items = None\<rparr>"
  by (simp_all add: sample_eval)

lemma sample_listed: "listed sample = Some [Ref 1]"
  using sample_globalRte by (auto simp: listed_eq sample_heap)

lemma sample_initialised: "initialised sample"
  using sample_globalRte by (auto simp: initialised_def sample_heap sample_next_addr)

lemma sample_ready: "ready sample"
  by (simp add: ready_def sample_initialised sample_listed)

lemma sample_twice_add:
  "add (Str ''bold'') Undefined sample = (Returns Undefined, sample_twice)"
  using add_total [OF sample_initialised, of Undefined "Str ''bold''"]
  by (auto simp: sample_twice_def)

lemmas sample_twice_eval = sample_twice_def add_def listed_def getAll_def sample_eval

lemma sample_twice_listed: "listed sample_twice = Some [Ref 1, Ref 6]"
  by (simp add: sample_twice_eval)

lemma sample_twice_heap:
  "heap sample_twice (Suc 0) =
     \<lparr>props = [''name'' \<mapsto> Str ''bold'', ''icon'' \<mapsto> Str ''<b>B</b>''], items = None\<rparr>"
  "heap sample_twice 6 = \<lparr>props = [''name'' \<mapsto> Str ''bold''], items = None\<rparr>"
  by (simp_all add: sample_twice_eval)

lemma sample_twice_ready: "ready sample_twice"
  using sample_twice_add sample_initialised
  by (auto simp: ready_def sample_twice_listed intro: add_initialised)


lemma sample_grown_listed:
  "listed (run_ops [Add (Str ''link'') Undefined, Add (Str ''void'') Null] sample) = Some [Ref 1, Ref 6]"
  by (simp add: add_def listed_def getAll_def sample_eval)

lemma sample_rename:
  "\<exists>s'. add (Str ''strong'') (Ref 1) sample = (Returns Undefined, s')"
  using add_total [OF sample_initialised, of "Ref 1" "Str ''strong''"] by simp

lemma sample_get:
  "get name sample = (scan (heap sample) name [Ref 1] Undefined, sample)"
  using sample_globalRte by (auto simp: get_eq sample_heap)

lemma plain_names_ready: "initialised s \<Longrightarrow> plain_names s \<Longrightarrow> ready s"
proof -
  assume i: "initialised s" and p: "plain_names s"
  from i obtain xs where xs: "listed s = Some xs" by (rule initialisedE)
  have "\<not> nullish x" if "case read_prop (heap s) x ''name'' of Returns n \<Rightarrow> primitive n | Throws e \<Rightarrow> False" for x
    using that by (cases x) simp_all
  with p xs have "list_all (\<lambda>x. \<not> nullish x) xs"
    by (auto simp: plain_names_def list_all_iff)
  with i xs show ?thesis by (simp add: ready_def)
qed

lemma sample_plain_names: "plain_names sample"
  by (simp add: plain_names_def sample_listed sample_heap)

lemma sample_customRte: "this_customRte sample = Null"
  by (simp add: sample_eval)

text \<open>Adding under a primitive name keeps the listed names primitive.\<close>

lemma add_plain_names:
  assumes "plain_names s" and "primitive name" and "add name action s = (Returns v, s')"
  shows "plain_names s'"
proof -
  from assms(3) obtain r arr xs a where *: "the_action action s = Ref a"
    "globalRte s = Some r" "getActions r = Ref arr" "globalRte s' = Some r"
    "items (heap s arr) = Some xs" "items (heap s' arr) = Some (xs @ [Ref a])"
    "props (heap s' a) = (if action = Undefined then Map.empty else props (heap s a))(''name'' \<mapsto> name)"
    and frame: "\<forall>b. b \<noteq> a \<longrightarrow> props (heap s' b) = props (heap s b)"
    by (rule add_returns)
  from * have l: "listed s = Some xs" "listed s' = Some (xs @ [Ref a])"
    by (simp_all add: listed_eq)
  have keep: "(case read_prop (heap s') x ''name'' of Returns n \<Rightarrow> primitive n | Throws e \<Rightarrow> False)"
    if "case read_prop (heap s) x ''name'' of Returns n \<Rightarrow> primitive n | Throws e \<Rightarrow> False" for x
  proof (cases "refers x = Some a")
    case True
    with * assms(2) show ?thesis by (cases x) simp_all
  next
    case False
    with frame that show ?thesis by (cases x) simp_all
  qed
  from assms(1) l(1) keep have "list_all (\<lambda>x. case read_prop (heap s') x ''name'' of
      Returns n \<Rightarrow> primitive n | Throws e \<Rightarrow> False) xs"
    by (auto simp: plain_names_def list_all_iff)
  moreover from * assms(2) have "case read_prop (heap s') (Ref a) ''name'' of
      Returns n \<Rightarrow> primitive n | Throws e \<Rightarrow> False" by simp
  ultimately show ?thesis using l(2) by (simp add: plain_names_def)
qed

lemma run_ops_append: "run_ops (xs @ ys) s = run_ops ys (run_ops xs s)"
  by (induction xs arbitrary: s) simp_all

section \<open>The claims\<close>

text \<open>
  C1. An action added through \<^verbatim>\<open>add(name, action)\<close> appears in the list that
  \<^verbatim>\<open>getAll()\<close> returns: right after the call, and after any further public
  operations. The action is the argument, or the fresh object of the default.
\<close>

theorem added_action_is_listed:
  assumes "initialised s" and "add name action s = (Returns v, s')"
  shows "\<exists>xs. listed (run_ops ops s') = Some xs \<and> the_action action s \<in> set xs"
proof -
  from assms(2) obtain r arr xs a where *: "the_action action s = Ref a"
    "globalRte s' = Some r" "getActions r = Ref arr"
    "items (heap s' arr) = Some (xs @ [Ref a])"
    by (rule add_returns)
  from * have "listed s' = Some (xs @ [Ref a])" by (simp add: listed_eq)
  moreover from assms have "initialised s'" by (rule add_initialised)
  ultimately obtain ys where "listed (run_ops ops s') = Some ((xs @ [Ref a]) @ ys)"
    using run_ops_grows by blast
  with * show ?thesis by simp
qed

theorem added_action_is_listed_witness:
  "\<exists>xs. listed (run_ops [Get (Str ''bold''), Add (Str ''link'') (Ref 1), GetAll] sample_twice) = Some xs
        \<and> Ref 6 \<in> set xs"
  using added_action_is_listed [OF sample_initialised sample_twice_add,
      of "[Get (Str ''bold''), Add (Str ''link'') (Ref 1), GetAll]"]
  by (simp add: the_action_def sample_next_addr del: run_ops.simps)

text \<open>
  C2. On a ready module \<^verbatim>\<open>get(name)\<close> returns: when some listed action has a name
  that \<^verbatim>\<open>==\<close> the given one, a listed action with such a name; otherwise undefined.
  On two strings \<^verbatim>\<open>==\<close> is equality of strings.
\<close>

theorem get_by_name:
  assumes "ready s" and "listed s = Some xs"
  shows "\<exists>v. get name s = (Returns v, s) \<and>
           (if list_ex (named (heap s) name) xs
            then v \<in> set xs \<and> named (heap s) name v else v = Undefined)"
proof -
  from assms have ok: "list_all (\<lambda>x. \<not> nullish x) xs" by (simp add: ready_def)
  from assms have "get name s = (scan (heap s) name xs Undefined, s)"
    by (auto elim: ready_listed)
  with scan_result [OF ok, of "heap s" name Undefined] show ?thesis by auto
qed

theorem get_by_name_witness:
  "get (Str ''bold'') sample = (Returns (Ref 1), sample) \<and>
   get (Str ''link'') sample = (Returns Undefined, sample)"
  using get_by_name [OF sample_ready sample_listed, of "Str ''bold''"]
    get_by_name [OF sample_ready sample_listed, of "Str ''link''"]
  by (simp add: named_def sample_heap)

text \<open>
  C3. \<^verbatim>\<open>add\<close> appends: on an initialised module, for an action that is an object or
  omitted, the call returns and the list of \<^verbatim>\<open>getAll()\<close> afterwards is the list
  before with the action at its end. Nothing is looked up by name, so an action
  with a name already present is appended like any other.
\<close>

theorem add_appends:
  assumes "initialised s" and "object_or_omitted action"
  shows "\<exists>s' xs. add name action s = (Returns Undefined, s') \<and> listed s = Some xs \<and>
           listed s' = Some (xs @ [the_action action s])"
proof -
  from add_total [OF assms] obtain s' where run: "add name action s = (Returns Undefined, s')"
    by blast
  then obtain r arr xs a where *: "the_action action s = Ref a"
    "globalRte s = Some r" "getActions r = Ref arr" "globalRte s' = Some r"
    "items (heap s arr) = Some xs" "items (heap s' arr) = Some (xs @ [Ref a])"
    by (rule add_returns)
  then have "listed s = Some xs" "listed s' = Some (xs @ [the_action action s])"
    by (simp_all add: listed_eq)
  with run show ?thesis by blast
qed

theorem add_appends_witness:
  "listed sample = Some [Ref 1] \<and> named (heap sample) (Str ''bold'') (Ref 1) \<and>
   listed (snd (add (Str ''bold'') Undefined sample)) = Some [Ref 1, Ref 6]"
  using add_appends [OF sample_initialised, of Undefined "Str ''bold''"]
  by (auto simp: sample_listed the_action_def sample_next_addr named_def sample_heap)

text \<open>
  C4. No public operation removes an action: along any sequence of \<^verbatim>\<open>add\<close>,
  \<^verbatim>\<open>get\<close>, \<^verbatim>\<open>getAll\<close>, \<^verbatim>\<open>getToolbarEl\<close>, \<^verbatim>\<open>enable\<close>, \<^verbatim>\<open>disable\<close> and \<^verbatim>\<open>postRender\<close>
  on an initialised module, the list at any point is a prefix of the list at every
  later point. So its length never decreases and every action stays.
\<close>

theorem actions_never_removed:
  assumes "initialised s"
  shows "\<exists>xs ys. listed (run_ops ops1 s) = Some xs \<and>
           listed (run_ops (ops1 @ ops2) s) = Some (xs @ ys)"
proof -
  from assms obtain xs0 where "listed s = Some xs0" by (rule initialisedE)
  with assms obtain ys0 where 1: "initialised (run_ops ops1 s)"
    "listed (run_ops ops1 s) = Some (xs0 @ ys0)"
    using run_ops_grows by blast
  then obtain ys where "listed (run_ops ops2 (run_ops ops1 s)) = Some ((xs0 @ ys0) @ ys)"
    using run_ops_grows by blast
  with 1 show ?thesis by (simp add: run_ops_append)
qed

theorem actions_never_removed_witness:
  "listed (run_ops [Add (Str ''link'') Undefined, Add (Str ''void'') Null] sample) = Some [Ref 1, Ref 6] \<and>
   (\<exists>ys. listed (run_ops ([Add (Str ''link'') Undefined, Add (Str ''void'') Null] @
                [PostRender \<lparr>ev_toolsEl = Ref 3\<rparr>,
                 Enable \<lparr>view_el = Ref 3, view_childrenContainer = Ref 3\<rparr> Undefined (Ref 3),
                 Add (Str ''bold'') (Ref 1),
                 Disable \<lparr>view_el = Ref 3, view_childrenContainer = Ref 3\<rparr> (Ref 3)]) sample)
        = Some ([Ref 1, Ref 6] @ ys))"
  using actions_never_removed [OF sample_initialised,
      of "[Add (Str ''link'') Undefined, Add (Str ''void'') Null]"
         "[PostRender \<lparr>ev_toolsEl = Ref 3\<rparr>,
           Enable \<lparr>view_el = Ref 3, view_childrenContainer = Ref 3\<rparr> Undefined (Ref 3),
           Add (Str ''bold'') (Ref 1),
           Disable \<lparr>view_el = Ref 3, view_childrenContainer = Ref 3\<rparr> (Ref 3)]"]
  by (simp only: sample_grown_listed) simp

text \<open>
  C5, as the claim states it, fails: a stored record does not always carry the name it
  was registered under. The record is the caller's object, so adding the same object
  twice, \<^verbatim>\<open>add('a')\<close> and then \<^verbatim>\<open>add('b', o)\<close> with the record \<open>o\<close> that the first call
  stored, leaves the record registered under \<^verbatim>\<open>'a'\<close> with the name \<^verbatim>\<open>'b'\<close>.
\<close>

theorem same_object_added_twice:
  "fst (add (Str ''a'') Undefined sample) = Returns Undefined \<and>
   listed (snd (add (Str ''a'') Undefined sample)) = Some [Ref 1, Ref 6] \<and>
   read_prop (heap (snd (add (Str ''a'') Undefined sample))) (Ref 6) ''name'' = Returns (Str ''a'') \<and>
   fst (add (Str ''b'') (Ref 6) (snd (add (Str ''a'') Undefined sample))) = Returns Undefined \<and>
   listed (snd (add (Str ''b'') (Ref 6) (snd (add (Str ''a'') Undefined sample)))) =
     Some [Ref 1, Ref 6, Ref 6] \<and>
   read_prop (heap (snd (add (Str ''b'') (Ref 6) (snd (add (Str ''a'') Undefined sample)))))
     (Ref 6) ''name'' = Returns (Str ''b'')"
  by (simp add: add_def listed_def getAll_def sample_eval)

text \<open>
  C5, amended. When \<^verbatim>\<open>add(name, action)\<close> returns, the record it has appended to the
  list is the action itself, and its \<^verbatim>\<open>name\<close> reads as the name argument, whatever
  name the object had before; the named properties of every other object are as
  before. That record, once allocated, keeps its named properties through any
  public operations that do not pass the same object to \<^verbatim>\<open>add\<close> again.
\<close>

theorem stored_record_carries_name:
  assumes "add name action s = (Returns v, s')"
  shows "\<exists>xs a. the_action action s = Ref a \<and>
           listed s = Some xs \<and> listed s' = Some (xs @ [Ref a]) \<and>
           read_prop (heap s') (Ref a) ''name'' = Returns name \<and>
           (\<forall>b. b \<noteq> a \<longrightarrow> props (heap s' b) = props (heap s b)) \<and>
           (a < next_addr s' \<and> list_all (\<lambda>x. \<not> adds_object a x) ops \<longrightarrow>
              read_prop (heap (run_ops ops s')) (Ref a) ''name'' = Returns name)"
proof -
  from assms obtain r arr xs a where *: "the_action action s = Ref a"
    "globalRte s = Some r" "getActions r = Ref arr" "globalRte s' = Some r"
    "items (heap s arr) = Some xs" "items (heap s' arr) = Some (xs @ [Ref a])"
    "props (heap s' a) = (if action = Undefined then Map.empty else props (heap s a))(''name'' \<mapsto> name)"
    and frame: "\<forall>b. b \<noteq> a \<longrightarrow> props (heap s' b) = props (heap s b)"
    by (rule add_returns)
  from * have l: "listed s = Some xs" "listed s' = Some (xs @ [Ref a])"
    by (simp_all add: listed_eq)
  from * have n: "read_prop (heap s') (Ref a) ''name'' = Returns name" by simp
  have "read_prop (heap (run_ops ops s')) (Ref a) ''name'' = Returns name"
    if "a < next_addr s'" "list_all (\<lambda>x. \<not> adds_object a x) ops"
    using run_ops_frame [OF that(2,1)] n by simp
  with * l n frame show ?thesis by blast
qed

theorem stored_record_carries_name_witness:
  "read_prop (heap sample) (Ref 1) ''name'' = Returns (Str ''bold'') \<and>
   (\<exists>xs. listed (snd (add (Str ''strong'') (Ref 1) sample)) = Some (xs @ [Ref 1])) \<and>
   read_prop (heap (snd (add (Str ''strong'') (Ref 1) sample))) (Ref 1) ''name'' = Returns (Str ''strong'') \<and>
   read_prop (heap (run_ops [Add (Str ''link'') Undefined, Get (Str ''link''), Add (Str ''void'') Null]
                     (snd (add (Str ''strong'') (Ref 1) sample)))) (Ref 1) ''name'' = Returns (Str ''strong'')"
proof -
  from sample_rename obtain s' where run: "add (Str ''strong'') (Ref 1) sample = (Returns Undefined, s')"
    by blast
  have "next_addr s' = 6"
    using run by (auto elim!: add_returns simp: sample_next_addr)
  with stored_record_carries_name [OF run,
      of "[Add (Str ''link'') Undefined, Get (Str ''link''), Add (Str ''void'') Null]"] run
  show ?thesis
    by (auto simp: the_action_def sample_heap simp del: run_ops.simps)
qed


text \<open>
  C6. \<^verbatim>\<open>init\<close> creates the toolbar element, a fresh \<^verbatim>\<open>div\<close>. After it, in the state
  \<open>s'\<close> that any public operations lead to, \<^verbatim>\<open>getToolbarEl()\<close> returns that element;
  no operation has created an element, and every write to an element so far
  (style, class, listener, insertion) was on that one. In \<open>s'\<close> the hooks work on
  it: \<^verbatim>\<open>postRender\<close> sets its style \<^verbatim>\<open>pointerEvents\<close> and inserts it in the tools
  element, \<^verbatim>\<open>enable\<close> first sets its style \<^verbatim>\<open>display\<close> to \<^verbatim>\<open>''\<close>, and \<^verbatim>\<open>disable\<close>, once
  the editor's own \<^verbatim>\<open>disable\<close> was called, sets its styles \<^verbatim>\<open>display\<close>, \<^verbatim>\<open>top\<close> and
  \<^verbatim>\<open>left\<close>; when there is no editor object to call, \<^verbatim>\<open>disable\<close> throws and writes
  nothing.
\<close>

theorem toolbar_created_once_and_reused:
  assumes "init defaults opts s0 = (Returns u, s)" and "s' = run_ops ops s"
  shows "\<exists>t. toolbar s = Some t \<and> next_addr s0 \<le> t \<and> CreateElement t ''div'' \<in> set (effects s) \<and>
           getToolbarEl s' = (Returns (Ref t), s') \<and>
           (\<exists>es. effects s' = effects s @ es \<and> list_all (on_toolbar (Some t)) es) \<and>
           effects (snd (postRender e s')) =
             effects s' @ SetStyle t ''pointerEvents'' ''all'' #
               (if is_object (ev_toolsEl e) then [AppendChild (ev_toolsEl e) t] else []) \<and>
           (\<exists>es. effects (snd (enable vw rte0 answer s')) =
                   effects s' @ SetStyle t ''display'' [] # es \<and>
                 list_all (on_toolbar (Some t)) es) \<and>
           (if is_object (if truthy (this_customRte s') then this_customRte s' else rte1)
            then \<exists>d es. effects (snd (disable vw1 rte1 s')) =
                     effects s' @ d # SetStyle t ''display'' ''none'' # SetStyle t ''top'' ''0'' #
                       SetStyle t ''left'' ''0'' # es \<and>
                   on_toolbar (Some t) d \<and> list_all (on_toolbar (Some t)) es
            else disable vw1 rte1 s' = (Throws TypeError, s'))"
proof -
  from init_made_toolbar assms(1) have "made_toolbar s0 s"
    unfolding establishes_def by blast
  then obtain t where t: "toolbar s = Some t" "next_addr s0 \<le> t"
    "CreateElement t ''div'' \<in> set (effects s)"
    by (auto simp: made_toolbar_def)
  from assms(1) have c: "\<not> nullish (config s)" by (rule init_config)
  from same_toolbar_run_ops [of s ops] t(1) c assms(2)
  have s': "toolbar s' = Some t" "\<not> nullish (config s')"
    "\<exists>es. effects s' = effects s @ es \<and> list_all (on_toolbar (Some t)) es"
    by (simp_all add: same_toolbar_def)
  from s'(1) have "getToolbarEl s' = (Returns (Ref t), s')" by (simp add: getToolbarEl_def)
  with t s'(3) postRender_effects [OF s'(1), of e] enable_effects [OF s'(1,2), of vw rte0 answer]
    disable_effects [OF s'(1,2), of rte1 vw1]
  show ?thesis by blast
qed

lemma sample_used_customRte: "this_customRte sample_used = Null"
  by (simp add: sample_used_def postRender_def enable_def disable_def add_def
      set_toolbar_style_def sample_eval)

theorem toolbar_created_once_and_reused_witness:
  "toolbar sample = Some 4 \<and>
   fst (getToolbarEl sample_used) = Returns (Ref 4) \<and>
   effects (snd (postRender \<lparr>ev_toolsEl = Ref 3\<rparr> sample_used)) =
     effects sample_used @ [SetStyle 4 ''pointerEvents'' ''all'', AppendChild (Ref 3) 4] \<and>
   (\<exists>es. effects (snd (enable \<lparr>view_el = Ref 3, view_childrenContainer = Ref 3\<rparr> Undefined (Ref 3)
                           sample_used)) =
           effects sample_used @ SetStyle 4 ''display'' [] # es) \<and>
   (\<exists>d es. effects (snd (disable \<lparr>view_el = Ref 3, view_childrenContainer = Ref 3\<rparr> (Ref 3)
                             sample_used)) =
           effects sample_used @
             d # [SetStyle 4 ''display'' ''none'', SetStyle 4 ''top'' ''0'', SetStyle 4 ''left'' ''0''] @ es) \<and>
   disable \<lparr>view_el = Ref 3, view_childrenContainer = Ref 3\<rparr> Undefined sample_used =
     (Throws TypeError, sample_used)"
  using toolbar_created_once_and_reused [OF sample_init sample_used_def,
      of "\<lparr>ev_toolsEl = Ref 3\<rparr>" "\<lparr>view_el = Ref 3, view_childrenContainer = Ref 3\<rparr>"
         Undefined "Ref 3" "Ref 3" "\<lparr>view_el = Ref 3, view_childrenContainer = Ref 3\<rparr>"]
    toolbar_created_once_and_reused [OF sample_init sample_used_def,
      of "\<lparr>ev_toolsEl = Ref 3\<rparr>" "\<lparr>view_el = Ref 3, view_childrenContainer = Ref 3\<rparr>"
         Undefined "Ref 3" Undefined "\<lparr>view_el = Ref 3, view_childrenContainer = Ref 3\<rparr>"]
  by (simp only: sample_used_customRte sample_toolbar) auto

text \<open>
  C7, as the claim states it, fails: \<^verbatim>\<open>add('bold', null)\<close> throws a TypeError at
  \<^verbatim>\<open>action.name = name\<close>, since the default \<^verbatim>\<open>{}\<close> replaces an omitted argument only.
\<close>

theorem add_null_throws: "fst (add (Str ''bold'') Null sample) = Throws TypeError"
  by (simp add: add_def thn_def ret_def)

text \<open>
  C7, amended. On an initialised module \<^verbatim>\<open>getAll()\<close> and \<^verbatim>\<open>getToolbarEl()\<close> return and
  leave the state as it is. \<^verbatim>\<open>add(name, action)\<close> returns, for every name, when the
  action is omitted or an ordinary object; for every other action (null, a string,
  a frozen object, a function, whose \<^verbatim>\<open>name\<close> is read-only) it throws a TypeError
  at \<^verbatim>\<open>action.name = name\<close> and changes nothing. \<^verbatim>\<open>get(name)\<close> returns, and leaves the
  state as it is, for a name that is a string, undefined or null when the name of
  every listed action reads as a string, undefined or null, so that \<^verbatim>\<open>==\<close> converts
  no object.
\<close>

theorem accessors_complete:
  assumes "initialised s"
  shows "(\<exists>v. getAll s = (Returns v, s)) \<and>
         (\<exists>v. getToolbarEl s = (Returns v, s)) \<and>
         (if object_or_omitted action then \<exists>s'. add name action s = (Returns Undefined, s')
          else add name action s = (Throws TypeError, s)) \<and>
         (primitive name \<and> plain_names s \<longrightarrow> (\<exists>v. get name s = (Returns v, s)))"
proof -
  have "\<exists>v. get name s = (Returns v, s)" if "plain_names s"
  proof -
    from assms that have "ready s" by (rule plain_names_ready)
    then obtain xs where xs: "list_all (\<lambda>x. \<not> nullish x) xs"
      "get name s = (scan (heap s) name xs Undefined, s)" by (auto elim: ready_listed)
    from scan_result [OF xs(1), of "heap s" name Undefined] xs(2)
    show ?thesis by auto
  qed
  moreover from assms have "\<exists>v. getAll s = (Returns v, s)"
    by (auto elim!: initialisedE simp: getAll_def thn_def the_globalRte_def ret_def)
  moreover have "\<exists>v. getToolbarEl s = (Returns v, s)" by (simp add: getToolbarEl_def)
  moreover have "if object_or_omitted action then \<exists>s'. add name action s = (Returns Undefined, s')
          else add name action s = (Throws TypeError, s)"
    using add_total [OF assms] add_refused by simp
  ultimately show ?thesis by blast
qed

theorem accessors_complete_witness:
  "fst (get (Str ''link'') sample) = Returns Undefined \<and>
   fst (getAll sample) = Returns (Ref 0) \<and>
   fst (getToolbarEl sample) = Returns (Ref 4) \<and>
   fst (add (Str ''link'') Undefined sample) = Returns Undefined \<and>
   add (Str ''link'') (Str ''b'') sample = (Throws TypeError, sample) \<and>
   add (Str ''link'') (Fixed 1) sample = (Throws TypeError, sample)"
  using accessors_complete [OF sample_initialised, of Undefined "Str ''link''"]
    accessors_complete [OF sample_initialised, of "Str ''b''" "Str ''link''"]
    accessors_complete [OF sample_initialised, of "Fixed 1" "Str ''link''"]
    sample_globalRte sample_plain_names
  by (auto simp: getToolbarEl_def sample_toolbar getAll_def thn_def the_globalRte_def ret_def
      sample_get sample_heap)

text \<open>
  C8. With several listed actions of the same name, \<^verbatim>\<open>get(name)\<close> returns the last
  of them: a listed action whose name \<^verbatim>\<open>==\<close> the argument and after which no listed
  action has such a name, whatever stands before it.
\<close>

theorem get_returns_last_match:
  assumes "ready s" and "listed s = Some (ys @ x # zs)" and "named (heap s) name x"
    and "list_all (\<lambda>z. \<not> named (heap s) name z) zs"
  shows "get name s = (Returns x, s)"
proof -
  from assms(1,2) have ok: "list_all (\<lambda>x. \<not> nullish x) (ys @ x # zs)" by (simp add: ready_def)
  from assms(1,2) have "get name s = (scan (heap s) name (ys @ x # zs) Undefined, s)"
    by (auto elim: ready_listed)
  with scan_last_match [OF ok assms(3,4)] show ?thesis by simp
qed

theorem get_returns_last_match_witness:
  "listed sample_twice = Some [Ref 1, Ref 6] \<and>
   named (heap sample_twice) (Str ''bold'') (Ref 1) \<and>
   named (heap sample_twice) (Str ''bold'') (Ref 6) \<and>
   get (Str ''bold'') sample_twice = (Returns (Ref 6), sample_twice)"
proof -
  have n: "named (heap sample_twice) (Str ''bold'') (Ref 1)"
    "named (heap sample_twice) (Str ''bold'') (Ref 6)"
    by (simp_all add: named_def sample_twice_heap)
  have l: "listed sample_twice = Some ([Ref 1] @ Ref 6 # [])"
    by (simp add: sample_twice_listed)
  from get_returns_last_match [OF sample_twice_ready l n(2)] n sample_twice_listed
  show ?thesis by simp
qed

text \<open>
  C9. \<^verbatim>\<open>add(name, action)\<close> with an action object works on that object: afterwards
  its named properties are the former ones with \<^verbatim>\<open>name\<close> set to the argument, the
  record appended to the list is the reference passed in, and no object was
  allocated. Unless the action is the list of actions itself, which the push
  extends, the whole object is as before but for \<^verbatim>\<open>name\<close>.
\<close>

theorem add_mutates_in_place:
  assumes "add name (Ref a) s = (Returns v, s')"
  shows "props (heap s' a) = (props (heap s a))(''name'' \<mapsto> name) \<and>
         (\<exists>xs. listed s = Some xs \<and> listed s' = Some (xs @ [Ref a])) \<and>
         next_addr s' = next_addr s \<and>
         (fst (getAll s) \<noteq> Returns (Ref a) \<longrightarrow>
            heap s' a = (heap s a)\<lparr>props := (props (heap s a))(''name'' \<mapsto> name)\<rparr>)"
proof -
  from assms obtain r arr xs b where *: "the_action (Ref a) s = Ref b"
    "globalRte s = Some r" "getActions r = Ref arr" "globalRte s' = Some r"
    "items (heap s arr) = Some xs" "items (heap s' arr) = Some (xs @ [Ref b])"
    "props (heap s' b) = (if Ref a = Undefined then Map.empty else props (heap s b))(''name'' \<mapsto> name)"
    "b \<noteq> arr \<longrightarrow> items (heap s' b) = (if Ref a = Undefined then None else items (heap s b))"
    "next_addr s' = (if Ref a = Undefined then Suc (next_addr s) else next_addr s)"
    by (rule add_returns)
  from *(1) have b: "b = a" by (simp add: the_action_def)
  from * have all: "fst (getAll s) = Returns (Ref arr)"
    by (simp add: getAll_def thn_def the_globalRte_def ret_def)
  from * b have "props (heap s' a) = (props (heap s a))(''name'' \<mapsto> name)" by simp
  moreover from * b have "listed s = Some xs \<and> listed s' = Some (xs @ [Ref a])"
    by (simp add: listed_eq)
  moreover from * have "next_addr s' = next_addr s" by simp
  moreover have "heap s' a = (heap s a)\<lparr>props := (props (heap s a))(''name'' \<mapsto> name)\<rparr>"
    if "fst (getAll s) \<noteq> Returns (Ref a)"
  proof -
    from that all have "a \<noteq> arr" by auto
    with * b show ?thesis by (intro cell.equality) simp_all
  qed
  ultimately show ?thesis by blast
qed

theorem add_mutates_in_place_witness:
  "heap sample 1 = \<lparr>props = [''name'' \<mapsto> Str ''bold'', ''icon'' \<mapsto> Str ''<b>B</b>''], items = None\<rparr> \<and>
   heap (snd (add (Str ''strong'') (Ref 1) sample)) 1 =
     \<lparr>props = [''name'' \<mapsto> Str ''strong'', ''icon'' \<mapsto> Str ''<b>B</b>''], items = None\<rparr> \<and>
   listed (snd (add (Str ''strong'') (Ref 1) sample)) = Some [Ref 1, Ref 1] \<and>
   next_addr (snd (add (Str ''strong'') (Ref 1) sample)) = next_addr sample"
proof -
  from sample_rename obtain s' where run: "add (Str ''strong'') (Ref 1) sample = (Returns Undefined, s')"
    by blast
  have "fst (getAll sample) \<noteq> Returns (Ref 1)"
    using sample_globalRte by (auto simp: getAll_def thn_def the_globalRte_def ret_def)
  with add_mutates_in_place [OF run] run show ?thesis
    by (auto simp: sample_listed sample_heap)
qed

text \<open>
  C10. \<^verbatim>\<open>add(name)\<close> without an action, on a ready module, returns; it has stored a
  fresh object whose only property is \<^verbatim>\<open>name\<close>, the given name; that object is the
  last of the list of \<^verbatim>\<open>getAll()\<close>, and \<^verbatim>\<open>get(name)\<close> returns it.
\<close>

theorem add_without_action:
  assumes "ready s"
  shows "\<exists>s' xs. add name Undefined s = (Returns Undefined, s') \<and>
           heap s' (next_addr s) = \<lparr>props = [''name'' \<mapsto> name], items = None\<rparr> \<and>
           listed s' = Some (xs @ [Ref (next_addr s)]) \<and>
           get name s' = (Returns (Ref (next_addr s)), s')"
proof -
  from assms have i: "initialised s" by (simp add: ready_def)
  from assms obtain xs0 where xs0: "listed s = Some xs0" "list_all (\<lambda>x. \<not> nullish x) xs0"
    by (auto elim: ready_listed)
  from i obtain r0 arr0 where g0: "globalRte s = Some r0" "getActions r0 = Ref arr0"
    "arr0 < next_addr s" by (rule initialisedE)
  from add_total [OF i, of Undefined name] obtain s' where
    run: "add name Undefined s = (Returns Undefined, s')" by auto
  then obtain r arr xs a where *: "the_action Undefined s = Ref a"
    "globalRte s = Some r" "getActions r = Ref arr" "globalRte s' = Some r"
    "items (heap s arr) = Some xs" "items (heap s' arr) = Some (xs @ [Ref a])"
    "props (heap s' a) = (if Undefined = Undefined then Map.empty else props (heap s a))(''name'' \<mapsto> name)"
    "a \<noteq> arr \<longrightarrow> items (heap s' a) = (if Undefined = Undefined then None else items (heap s a))"
    by (rule add_returns)
  from *(1) have a: "a = next_addr s" by (simp add: the_action_def)
  from g0 * have "arr = arr0" by simp
  with g0 a have ne: "a \<noteq> arr" by simp
  from * xs0 have xs: "xs = xs0" by (simp add: listed_eq)
  have cell: "heap s' (next_addr s) = \<lparr>props = [''name'' \<mapsto> name], items = None\<rparr>"
    using * ne a by (intro cell.equality) simp_all
  have l: "listed s' = Some (xs @ [Ref (next_addr s)])"
    using * a by (simp add: listed_eq)
  have ok: "list_all (\<lambda>x. \<not> nullish x) (xs @ Ref (next_addr s) # [])"
    using xs0 xs by simp
  have nm: "named (heap s') name (Ref (next_addr s))"
    by (simp add: named_def cell loose_eq_refl)
  have "get name s' = (scan (heap s') name (xs @ Ref (next_addr s) # []) Undefined, s')"
    using * a by (simp add: get_eq)
  with scan_last_match [OF ok nm] have "get name s' = (Returns (Ref (next_addr s)), s')"
    by simp
  with run cell l show ?thesis by blast
qed

theorem add_without_action_witness:
  "fst (add (Str ''link'') Undefined sample) = Returns Undefined \<and>
   heap (snd (add (Str ''link'') Undefined sample)) 6 = \<lparr>props = [''name'' \<mapsto> Str ''link''], items = None\<rparr> \<and>
   listed (snd (add (Str ''link'') Undefined sample)) = Some [Ref 1, Ref 6] \<and>
   fst (get (Str ''link'') (snd (add (Str ''link'') Undefined sample))) = Returns (Ref 6)"
proof -
  have "listed (snd (add (Str ''link'') Undefined sample)) = Some [Ref 1, Ref 6]"
    by (simp add: add_def listed_def getAll_def sample_eval)
  with add_without_action [OF sample_ready, of "Str ''link''"] show ?thesis
    by (auto simp: sample_next_addr)
qed

end
